theory Spec2Isabelle
  imports Complex_Main "HOL-Library.Word"
begin

unbundle bit_operations_syntax

section \<open>RTP audio receivers: data model\<close>

text \<open>
  The repository holds three variants of one receive loop:
  \<^item> \<^verbatim>\<open>rew_audio_receiver.py\<close>, class \<^verbatim>\<open>AudioReceiver\<close> (ALSA sink), called the
    main variant below;
  \<^item> \<^verbatim>\<open>rew_audio_receiver_minimal.py\<close>, class \<^verbatim>\<open>MinimalAudioReceiver\<close> (aplay pipe);
  \<^item> \<^verbatim>\<open>rew_audio_receiver_simple.py\<close>, class \<^verbatim>\<open>SimpleAudioReceiver\<close> (aplay pipe,
    sender tracking).
  Python integers are unbounded and are modelled as \<open>int\<close>; a datagram (\<^verbatim>\<open>bytes\<close>) is a
  list of 8-bit words. Printing and logging do not change any state and are left out,
  except for the "no data" warning of the health check, which is returned as a value.
\<close>

type_synonym byte = "8 word"

subsection \<open>\<^verbatim>\<open>struct.unpack('!BBHII', data[:12])\<close>\<close>

text \<open>
  \<open>be_int\<close> reads a byte string as a big-endian unsigned number, as the network byte
  order formats \<^verbatim>\<open>H\<close> (2 bytes) and \<^verbatim>\<open>I\<close> (4 bytes) of \<^verbatim>\<open>struct\<close> do. \<^verbatim>\<open>struct.unpack\<close>
  raises \<^verbatim>\<open>struct.error\<close> unless the buffer has exactly 12 bytes: the result \<open>None\<close>.
\<close>

definition be_int :: "byte list \<Rightarrow> int" where
  "be_int bs = foldl (\<lambda>acc b. acc * 256 + uint b) 0 bs"

definition unpack_BBHII :: "byte list \<Rightarrow> (int \<times> int \<times> int \<times> int \<times> int) option" where
  "unpack_BBHII bs =
     (if length bs \<noteq> 12 then None
      else Some (uint (bs ! 0), uint (bs ! 1),
                 be_int (take 2 (drop 2 bs)),
                 be_int (take 4 (drop 4 bs)),
                 be_int (take 4 (drop 8 bs))))"

subsection \<open>Header Parser\<close>

text \<open>
  The parsing block of \<^verbatim>\<open>AudioReceiver.run\<close> (lines 133 to 148; the same lines stand in
  the two other variants):
  \<^verbatim>\<open>
    if len(data) < 12: continue
    header = struct.unpack('!BBHII', data[:12])
    version = (header[0] >> 6) & 0x3
    payload_type = header[1] & 0x7F
    sequence = header[2]
    timestamp = header[3]
    if version != 2: continue
    audio_data = data[12:]
  \<close>
  \<open>parse_rtp\<close> is the block without the version test, which \<open>accept_rtp\<close> adds. The
  SSRC is \<^verbatim>\<open>header[4]\<close>, the last component of the unpacked tuple; the code gives it no
  name of its own. After the length test the slice \<^verbatim>\<open>data[:12]\<close> has exactly 12 bytes,
  so \<^verbatim>\<open>struct.error\<close> cannot occur: \<open>parse_rtp\<close> is \<open>None\<close> only for a datagram that is
  too short (lemma \<open>parse_rtp_None_iff\<close> below).
\<close>

record rtp_packet =
  header :: "int \<times> int \<times> int \<times> int \<times> int"
  version :: int
  payload_type :: int
  sequence :: int
  timestamp :: int
  audio_data :: "byte list"

definition parse_rtp :: "byte list \<Rightarrow> rtp_packet option" where
  "parse_rtp data =
     (if length data < 12 then None
      else case unpack_BBHII (take 12 data) of
        None \<Rightarrow> None
      | Some (h0, h1, h2, h3, h4) \<Rightarrow>
          Some \<lparr> header = (h0, h1, h2, h3, h4),
                 version = (drop_bit 6 h0) AND 0x3,
                 payload_type = h1 AND 0x7F,
                 sequence = h2,
                 timestamp = h3,
                 audio_data = drop 12 data \<rparr>)"

definition accept_rtp :: "byte list \<Rightarrow> rtp_packet option" where
  "accept_rtp data =
     (case parse_rtp data of
        None \<Rightarrow> None
      | Some p \<Rightarrow> if version p \<noteq> 2 then None else Some p)"

text \<open>
  The synthetic encoder of the round-trip property. It is not part of the repository
  (the sender is a separate program): it is written from the layout the specification
  gives, byte 0 bits 7..6 the version (the six low bits \<open>low6\<close> are padding, extension
  and CSRC count), byte 1 bit 7 the marker and bits 6..0 the payload type, then
  sequence (2 bytes), timestamp (4 bytes) and SSRC (4 bytes) in network byte order,
  then the payload.
\<close>

fun to_be :: "nat \<Rightarrow> int \<Rightarrow> byte list" where
  "to_be 0 x = []"
| "to_be (Suc n) x = to_be n (x div 256) @ [word_of_int (x mod 256)]"

definition encode_rtp ::
  "int \<Rightarrow> int \<Rightarrow> int \<Rightarrow> int \<Rightarrow> int \<Rightarrow> int \<Rightarrow> int \<Rightarrow> byte list \<Rightarrow> byte list" where
  "encode_rtp v low6 m pt sq ts ssrc payload =
     [word_of_int (v * 64 + low6), word_of_int (m * 128 + pt)]
       @ to_be 2 sq @ to_be 4 ts @ to_be 4 ssrc @ payload"

subsection \<open>Receiver state\<close>

text \<open>
  The fields every variant has: the \<^verbatim>\<open>running\<close> flag and the four counters of the
  \<^verbatim>\<open>stats\<close> dictionary. \<^verbatim>\<open>last_sequence\<close> is \<open>-1\<close> until a packet has been accepted.
\<close>

record receiver =
  running :: bool
  packets_received :: int
  bytes_received :: int
  errors :: int
  last_sequence :: int

subsection \<open>Sequence Tracker\<close>

text \<open>
  The block "Check for dropped packets" of \<^verbatim>\<open>AudioReceiver.run\<close> (lines 163 to 173) and
  of \<^verbatim>\<open>MinimalAudioReceiver.run\<close> (lines 138 to 146):
  \<^verbatim>\<open>
    if self.stats["last_sequence"] != -1:
        expected = (self.stats["last_sequence"] + 1) & 0xFFFF
        if sequence != expected:
            dropped = (sequence - expected) & 0xFFFF
            self.stats["errors"] += dropped
    self.stats["last_sequence"] = sequence
  \<close>
  The first component of the result is the number of dropped packets the block reports
  (\<open>0\<close> when it reports nothing), the second the updated state.
\<close>

definition observe :: "int \<Rightarrow> 'a receiver_scheme \<Rightarrow> int \<times> 'a receiver_scheme" where
  "observe sq st =
     (if last_sequence st \<noteq> - 1 then
        (let expected = (last_sequence st + 1) AND 0xFFFF in
         if sq \<noteq> expected then
           (let dropped = (sq - expected) AND 0xFFFF in
            (dropped, st\<lparr>errors := errors st + dropped, last_sequence := sq\<rparr>))
         else (0, st\<lparr>last_sequence := sq\<rparr>))
      else (0, st\<lparr>last_sequence := sq\<rparr>))"

text \<open>
  The block "Update statistics" followed by the Sequence Tracker, as both
  \<^verbatim>\<open>AudioReceiver.run\<close> (lines 158 to 173) and \<^verbatim>\<open>MinimalAudioReceiver.run\<close> (lines 134
  to 146) have it. \<^verbatim>\<open>len(data)\<close> is the length of the whole datagram.
\<close>

definition update_statistics ::
  "byte list \<Rightarrow> int \<Rightarrow> 'a receiver_scheme \<Rightarrow> 'a receiver_scheme" where
  "update_statistics data sq st =
     snd (observe sq (st\<lparr>packets_received := packets_received st + 1,
                         bytes_received := bytes_received st + int (length data)\<rparr>))"

subsection \<open>What one loop iteration gets from its environment\<close>

text \<open>
  \<open>recv_result\<close> is the outcome of \<^verbatim>\<open>self.socket.recvfrom(1500)\<close>: a datagram with the
  sender's address, \<^verbatim>\<open>socket.timeout\<close>, any other \<^verbatim>\<open>Exception\<close>, or a
  \<^verbatim>\<open>KeyboardInterrupt\<close> (the explicit stop). \<open>sink_exn\<close> is the class of exception a
  write to the sink raises, as far as the handlers of the three variants tell classes
  apart: \<open>TimeoutError\<close> is \<^verbatim>\<open>socket.timeout\<close>, a subclass of \<^verbatim>\<open>OSError\<close> that the loop of
  the main variant catches with its own handler, and \<open>OSError\<close> stands for any other
  \<^verbatim>\<open>OSError\<close> that is not a \<^verbatim>\<open>BrokenPipeError\<close>.
  An \<open>io\<close> record holds what the environment answers during one iteration: the
  result of the receive, the clock reading, the outcome of a write to the sink (\<open>None\<close>
  when it returns normally) and whether \<^verbatim>\<open>subprocess.Popen\<close> succeeds, the last two
  being used only when the iteration gets that far.
\<close>

datatype recv_result =
  Received "byte list" string | SocketTimeout | SocketError | KeyboardInterrupt

datatype sink_exn =
  ALSAAudioError | BrokenPipeError | TimeoutError | OSError | OtherException

datatype loop_ctl = Continue | Break

record 't io =
  recv :: recv_result
  clock :: 't
  sink_write :: "sink_exn option"
  popen_ok :: bool


text \<open>
  The clock of an iteration is the float \<^verbatim>\<open>time.time()\<close> returns, read as a real number
  of seconds; \<open>py_int\<close> is Python's \<^verbatim>\<open>int\<close> of a float, which truncates towards zero.
\<close>

definition py_int :: "real \<Rightarrow> int" where
  "py_int x = (if 0 \<le> x then \<lfloor>x\<rfloor> else \<lceil>x\<rceil>)"

text \<open>
  The \<^verbatim>\<open>while self.running:\<close> loop over the answers of the environment. The result
  \<open>Continue\<close> says that the loop is still running when the answers are used up,
  \<open>Break\<close> that it has been left.
\<close>

fun receive_loop ::
  "('t io \<Rightarrow> 'a receiver_scheme \<Rightarrow> loop_ctl \<times> 'a receiver_scheme)
     \<Rightarrow> 't io list \<Rightarrow> 'a receiver_scheme \<Rightarrow> loop_ctl \<times> 'a receiver_scheme" where
  "receive_loop body [] st = (if running st then (Continue, st) else (Break, st))"
| "receive_loop body (x # xs) st =
     (if \<not> running st then (Break, st)
      else case body x st of
        (Continue, st') \<Rightarrow> receive_loop body xs st'
      | (Break, st') \<Rightarrow> (Break, st'))"

subsection \<open>The main variant: \<^verbatim>\<open>AudioReceiver\<close>\<close>

text \<open>
  The state adds the three other entries of \<^verbatim>\<open>self.stats\<close>. The two times are stored
  as whole seconds, \<^verbatim>\<open>int(time.time())\<close>. Two fields are traces rather than fields of
  the class: \<open>pcm_writes\<close> records the payloads handed to \<^verbatim>\<open>self.pcm.write\<close>, in order,
  and \<open>warnings_printed\<close> the warnings \<^verbatim>\<open>check_connection_health\<close> prints, each with the
  clock of the iteration that printed it.
\<close>

datatype health_warning = NoData int | HighErrorRate

record audio_receiver = receiver +
  connection_errors :: int
  last_packet_time :: int
  stream_start_time :: int
  pcm_writes :: "byte list list"
  warnings_printed :: "(real \<times> health_warning) list"

definition AudioReceiver_init :: audio_receiver where
  "AudioReceiver_init =
     \<lparr> running = False, packets_received = 0, bytes_received = 0, errors = 0,
       last_sequence = - 1, connection_errors = 0, last_packet_time = 0,
       stream_start_time = 0, pcm_writes = [], warnings_printed = [] \<rparr>"

text \<open>
  \<^verbatim>\<open>start\<close>: \<open>ok\<close> says whether binding the socket and opening the ALSA device
  succeed; when one of them raises, the method logs and returns \<^verbatim>\<open>False\<close>.
  \<^verbatim>\<open>stop\<close> clears the flag (closing the socket and the device is not modelled).
\<close>

definition start :: "bool \<Rightarrow> real \<Rightarrow> audio_receiver \<Rightarrow> bool \<times> audio_receiver" where
  "start ok now st =
     (if ok then (True, st\<lparr>running := True, stream_start_time := py_int now\<rparr>)
      else (False, st))"

definition stop :: "'a receiver_scheme \<Rightarrow> 'a receiver_scheme" where
  "stop st = st\<lparr>running := False\<rparr>"

datatype conn_status = STOPPED | WAITING | GOOD | SLOW | DISCONNECTED

definition get_connection_status :: "real \<Rightarrow> audio_receiver \<Rightarrow> conn_status" where
  "get_connection_status now st =
     (if \<not> running st then STOPPED
      else if last_packet_time st = 0 then WAITING
      else (let current_time = py_int now;
                time_since_last = current_time - last_packet_time st in
            if time_since_last < 2 then GOOD
            else if time_since_last < 10 then SLOW
            else DISCONNECTED))"

text \<open>
  \<^verbatim>\<open>check_connection_health\<close> only prints; the model returns the warnings it prints.
  The error-rate test compares with the float \<^verbatim>\<open>total_packets * 0.05\<close>, read here as
  the exact product; the rounding of the float is not modelled (it matters only for
  counts beyond what a double represents exactly).
\<close>

definition check_connection_health :: "real \<Rightarrow> audio_receiver \<Rightarrow> health_warning list" where
  "check_connection_health now st =
     (if \<not> running st then []
      else (let current_time = py_int now in
            if current_time - stream_start_time st < 10 then []
            else (let time_since_last = current_time - last_packet_time st in
                  (if time_since_last > 15 then [NoData time_since_last] else [])
                  @ (if packets_received st > 100
                        \<and> real_of_int (errors st)
                            > real_of_int (packets_received st) * (5 / 100)
                     then [HighErrorRate] else []))))"

text \<open>
  The handler \<^verbatim>\<open>except socket.timeout\<close> of the loop body (lines 184 to 187): the health
  check, then \<^verbatim>\<open>continue\<close>.
\<close>

definition on_socket_timeout :: "real \<Rightarrow> audio_receiver \<Rightarrow> audio_receiver" where
  "on_socket_timeout now st =
     st\<lparr>warnings_printed := warnings_printed st
            @ map (Pair now) (check_connection_health now st)\<rparr>"

text \<open>
  The handler \<^verbatim>\<open>except Exception as e\<close> of the loop body (lines 188 to 192).
\<close>

definition on_exception :: "audio_receiver \<Rightarrow> audio_receiver" where
  "on_exception st =
     st\<lparr>connection_errors := connection_errors st + 1, errors := errors st + 1\<rparr>"

text \<open>
  The body of the loop for a received datagram (lines 129 to 173). The write to ALSA
  is attempted when the payload is not empty; \<^verbatim>\<open>ALSAAudioError\<close> is swallowed, and any
  other exception of the write reaches the handlers of the loop body: that of
  \<^verbatim>\<open>socket.timeout\<close> first, that of \<^verbatim>\<open>Exception\<close> otherwise. The status line printed
  every 1000 packets changes no state and is left out.
\<close>

definition handle_datagram ::
  "byte list \<Rightarrow> real \<Rightarrow> sink_exn option \<Rightarrow> audio_receiver \<Rightarrow> audio_receiver" where
  "handle_datagram data current_time wr st =
     (let st1 = st\<lparr>last_packet_time := py_int current_time\<rparr> in
      case accept_rtp data of
        None \<Rightarrow> st1
      | Some p \<Rightarrow>
          if audio_data p \<noteq> [] then
            (let st2 = st1\<lparr>pcm_writes := pcm_writes st1 @ [audio_data p]\<rparr> in
             if wr = None \<or> wr = Some ALSAAudioError
             then update_statistics data (sequence p) st2
             else if wr = Some TimeoutError
             then on_socket_timeout current_time st2
             else on_exception st2)
          else update_statistics data (sequence p) st1)"

definition iteration :: "real io \<Rightarrow> audio_receiver \<Rightarrow> loop_ctl \<times> audio_receiver" where
  "iteration x st =
     (case recv x of
        Received data addr \<Rightarrow> (Continue, handle_datagram data (clock x) (sink_write x) st)
      | SocketTimeout \<Rightarrow> (Continue, on_socket_timeout (clock x) st)
      | SocketError \<Rightarrow> (Continue, on_exception st)
      | KeyboardInterrupt \<Rightarrow> (Break, st))"

text \<open>
  \<^verbatim>\<open>run\<close>: start, loop, and \<^verbatim>\<open>finally: self.stop()\<close> once the loop is left.
\<close>

definition run ::
  "bool \<Rightarrow> real \<Rightarrow> real io list \<Rightarrow> audio_receiver \<Rightarrow> loop_ctl \<times> audio_receiver" where
  "run ok now xs st =
     (case start ok now st of
        (False, st') \<Rightarrow> (Break, st')
      | (True, st') \<Rightarrow>
          (case receive_loop iteration xs st' of
             (Continue, st'') \<Rightarrow> (Continue, st'')
           | (Break, st'') \<Rightarrow> (Break, stop st'')))"

subsection \<open>The minimal variant: \<^verbatim>\<open>MinimalAudioReceiver\<close>\<close>

text \<open>
  The sink is an \<^verbatim>\<open>aplay\<close> child process. \<open>aplay_process\<close> is \<open>None\<close> or the handle of
  the live child, numbered in the order the children were spawned (\<open>popen_count\<close>
  counts them); \<open>stdin_writes\<close> records the payloads handed to
  \<^verbatim>\<open>self.aplay_process.stdin.write\<close>. Terminating and reaping the old child is not
  modelled.
\<close>

record aplay_receiver = receiver +
  aplay_process :: "nat option"
  popen_count :: nat
  stdin_writes :: "byte list list"

definition MinimalAudioReceiver_init :: aplay_receiver where
  "MinimalAudioReceiver_init =
     \<lparr> running = False, packets_received = 0, bytes_received = 0, errors = 0,
       last_sequence = - 1, aplay_process = None, popen_count = 0, stdin_writes = [] \<rparr>"

definition popen :: "'a aplay_receiver_scheme \<Rightarrow> 'a aplay_receiver_scheme" where
  "popen st = st\<lparr>aplay_process := Some (popen_count st), popen_count := Suc (popen_count st)\<rparr>"

definition minimal_start :: "bool \<Rightarrow> bool \<Rightarrow> aplay_receiver \<Rightarrow> bool \<times> aplay_receiver" where
  "minimal_start bind_ok p_ok st =
     (if \<not> bind_ok then (False, st)
      else if \<not> p_ok then (False, st)
      else (True, (popen st)\<lparr>running := True\<rparr>))"

text \<open>
  \<^verbatim>\<open>restart_aplay\<close> (lines 159 to 178): a failing \<^verbatim>\<open>Popen\<close> is logged and leaves
  \<^verbatim>\<open>self.aplay_process = None\<close>.
\<close>

definition restart_aplay :: "bool \<Rightarrow> aplay_receiver \<Rightarrow> aplay_receiver" where
  "restart_aplay p_ok st = (if p_ok then popen st else st\<lparr>aplay_process := None\<rparr>)"

text \<open>
  The body of the loop for a received datagram (lines 109 to 146). The handler of the
  write catches \<^verbatim>\<open>(BrokenPipeError, OSError)\<close>, \<^verbatim>\<open>socket.timeout\<close> included, and
  restarts the sink; any other exception reaches \<^verbatim>\<open>except Exception\<close> of the loop
  body, which adds 1 to \<^verbatim>\<open>errors\<close>.
\<close>

definition minimal_handle_datagram ::
  "byte list \<Rightarrow> sink_exn option \<Rightarrow> bool \<Rightarrow> aplay_receiver \<Rightarrow> aplay_receiver" where
  "minimal_handle_datagram data wr p_ok st =
     (case accept_rtp data of
        None \<Rightarrow> st
      | Some p \<Rightarrow>
          if audio_data p \<noteq> [] \<and> aplay_process st \<noteq> None then
            (let st1 = st\<lparr>stdin_writes := stdin_writes st @ [audio_data p]\<rparr> in
             case wr of
               None \<Rightarrow> update_statistics data (sequence p) st1
             | Some e \<Rightarrow>
                 if e = BrokenPipeError \<or> e = TimeoutError \<or> e = OSError
                 then update_statistics data (sequence p) (restart_aplay p_ok st1)
                 else st1\<lparr>errors := errors st1 + 1\<rparr>)
          else update_statistics data (sequence p) st)"

definition minimal_iteration :: "'t io \<Rightarrow> aplay_receiver \<Rightarrow> loop_ctl \<times> aplay_receiver" where
  "minimal_iteration x st =
     (case recv x of
        Received data addr \<Rightarrow>
          (Continue, minimal_handle_datagram data (sink_write x) (popen_ok x) st)
      | SocketTimeout \<Rightarrow> (Continue, st)
      | SocketError \<Rightarrow> (Continue, st\<lparr>errors := errors st + 1\<rparr>)
      | KeyboardInterrupt \<Rightarrow> (Break, st))"

definition minimal_stop :: "'a aplay_receiver_scheme \<Rightarrow> 'a aplay_receiver_scheme" where
  "minimal_stop st = st\<lparr>running := False, aplay_process := None\<rparr>"

definition minimal_run ::
  "bool \<Rightarrow> bool \<Rightarrow> 't io list \<Rightarrow> aplay_receiver \<Rightarrow> loop_ctl \<times> aplay_receiver" where
  "minimal_run bind_ok p_ok xs st =
     (case minimal_start bind_ok p_ok st of
        (False, st') \<Rightarrow> (Break, st')
      | (True, st') \<Rightarrow>
          (case receive_loop minimal_iteration xs st' of
             (Continue, st'') \<Rightarrow> (Continue, st'')
           | (Break, st'') \<Rightarrow> (Break, minimal_stop st'')))"

subsection \<open>The simple variant: \<^verbatim>\<open>SimpleAudioReceiver\<close>\<close>

text \<open>
  The state joins the module-level \<^verbatim>\<open>stats\<close> dictionary and the fields of the class;
  \<open>self_last_packet_time\<close> is the attribute \<^verbatim>\<open>self.last_packet_time\<close>. This variant
  keeps the float of \<^verbatim>\<open>time.time()\<close> as it is.
\<close>

record simple_receiver = aplay_receiver +
  start_time :: real
  connected :: bool
  connection_time :: int
  last_sender :: "string option"
  self_last_packet_time :: real

definition SimpleAudioReceiver_init :: "real \<Rightarrow> simple_receiver" where
  "SimpleAudioReceiver_init t0 =
     \<lparr> running = False, packets_received = 0, bytes_received = 0, errors = 0,
       last_sequence = - 1, aplay_process = None, popen_count = 0, stdin_writes = [],
       start_time = t0, connected = False, connection_time = 0, last_sender = None,
       self_last_packet_time = 0 \<rparr>"

definition start_aplay :: "bool \<Rightarrow> simple_receiver \<Rightarrow> bool \<times> simple_receiver" where
  "start_aplay p_ok st = (if p_ok then (True, popen st) else (False, st))"

definition stop_aplay :: "simple_receiver \<Rightarrow> simple_receiver" where
  "stop_aplay st = st\<lparr>aplay_process := None\<rparr>"

text \<open>
  Lines 189 to 206 of \<^verbatim>\<open>SimpleAudioReceiver.start\<close>: connection detection, then the
  statistics. This variant stores the sequence number and computes no drop count.
\<close>

definition note_packet ::
  "byte list \<Rightarrow> string \<Rightarrow> int \<Rightarrow> real \<Rightarrow> simple_receiver \<Rightarrow> simple_receiver" where
  "note_packet data addr sq now st =
     (let st1 = (if \<not> connected st
                 then st\<lparr>connected := True, connection_time := py_int now,
                         last_sender := Some addr\<rparr>
                 else if last_sender st \<noteq> Some addr
                 then st\<lparr>last_sender := Some addr\<rparr>
                 else st)
      in st1\<lparr>packets_received := packets_received st1 + 1,
              bytes_received := bytes_received st1 + int (length data),
              last_sequence := sq,
              self_last_packet_time := now\<rparr>)"

text \<open>
  The body of the loop for a received datagram (lines 159 to 209). On
  \<^verbatim>\<open>BrokenPipeError\<close> the sink is restarted, and the loop is left with \<^verbatim>\<open>break\<close> when
  the restart fails; any other exception of the write is logged.
\<close>

definition simple_handle_datagram ::
  "byte list \<Rightarrow> string \<Rightarrow> real \<Rightarrow> sink_exn option \<Rightarrow> bool \<Rightarrow> simple_receiver
     \<Rightarrow> loop_ctl \<times> simple_receiver" where
  "simple_handle_datagram data addr now wr p_ok st =
     (case accept_rtp data of
        None \<Rightarrow> (Continue, st)
      | Some p \<Rightarrow>
          if aplay_process st \<noteq> None \<and> audio_data p \<noteq> [] then
            (let st1 = st\<lparr>stdin_writes := stdin_writes st @ [audio_data p]\<rparr> in
             if wr = Some BrokenPipeError then
               (case start_aplay p_ok (stop_aplay st1) of
                  (False, st2) \<Rightarrow> (Break, st2)
                | (True, st2) \<Rightarrow> (Continue, note_packet data addr (sequence p) now st2))
             else (Continue, note_packet data addr (sequence p) now st1))
          else (Continue, note_packet data addr (sequence p) now st))"

text \<open>
  The handler of \<^verbatim>\<open>socket.timeout\<close> (lines 211 to 219), the only place that clears
  \<^verbatim>\<open>stats['connected']\<close>.
\<close>

definition on_timeout :: "real \<Rightarrow> simple_receiver \<Rightarrow> simple_receiver" where
  "on_timeout now st =
     (if connected st \<and> self_last_packet_time st > 0 then
        (if now - self_last_packet_time st > 5 then
           st\<lparr>connected := False, last_sender := None\<rparr>
         else st)
      else st)"

text \<open>
  A \<^verbatim>\<open>KeyboardInterrupt\<close> is no \<^verbatim>\<open>Exception\<close>: it leaves \<^verbatim>\<open>start\<close>, and \<^verbatim>\<open>main\<close> then
  calls \<^verbatim>\<open>receiver.stop()\<close>.
\<close>

definition simple_iteration :: "real io \<Rightarrow> simple_receiver \<Rightarrow> loop_ctl \<times> simple_receiver" where
  "simple_iteration x st =
     (case recv x of
        Received data addr \<Rightarrow>
          simple_handle_datagram data addr (clock x) (sink_write x) (popen_ok x) st
      | SocketTimeout \<Rightarrow> (Continue, on_timeout (clock x) st)
      | SocketError \<Rightarrow> (Continue, st\<lparr>errors := errors st + 1\<rparr>)
      | KeyboardInterrupt \<Rightarrow> (Break, st))"

definition simple_start ::
  "bool \<Rightarrow> bool \<Rightarrow> real io list \<Rightarrow> simple_receiver \<Rightarrow> loop_ctl \<times> simple_receiver" where
  "simple_start bind_ok p_ok xs st =
     (if \<not> bind_ok then (Break, st)
      else case start_aplay p_ok st of
        (False, st') \<Rightarrow> (Break, st')
      | (True, st') \<Rightarrow> receive_loop simple_iteration xs (st'\<lparr>running := True\<rparr>))"

section \<open>Bit operations of the code as arithmetic\<close>

lemma and_0xFFFF: "(x::int) AND 0xFFFF = x mod 65536"
proof -
  have "x AND mask 16 = x mod 2 ^ 16"
    by (simp only: take_bit_eq_mask [symmetric] take_bit_eq_mod)
  then show ?thesis by (simp add: mask_eq_exp_minus_1)
qed

lemma and_0x7F: "(x::int) AND 0x7F = x mod 128"
proof -
  have "x AND mask 7 = x mod 2 ^ 7"
    by (simp only: take_bit_eq_mask [symmetric] take_bit_eq_mod)
  then show ?thesis by (simp add: mask_eq_exp_minus_1)
qed

lemma and_0x3: "(x::int) AND 0x3 = x mod 4"
proof -
  have "x AND mask 2 = x mod 2 ^ 2"
    by (simp only: take_bit_eq_mask [symmetric] take_bit_eq_mod)
  then show ?thesis by (simp add: mask_eq_exp_minus_1)
qed

lemma version_bits: "(drop_bit 6 (uint (b::byte))) AND 0x3 = uint b div 64"
proof -
  have "uint b < 256" using uint_bounded [of b] by simp
  moreover have "0 \<le> uint b" by simp
  ultimately have "uint b div 64 < 4" "0 \<le> uint b div 64" by presburger+
  then show ?thesis by (simp add: and_0x3 drop_bit_eq_div)
qed

section \<open>Sequence Tracker: properties\<close>

lemma observe_last_sequence: "last_sequence (snd (observe sq st)) = sq"
  by (simp add: observe_def Let_def)

lemma observe_errors: "errors (snd (observe sq st)) = errors st + fst (observe sq st)"
  by (simp add: observe_def Let_def)

lemma observe_fst:
  "fst (observe sq st) =
     (if last_sequence st = - 1 then 0
      else if sq = (last_sequence st + 1) mod 65536 then 0
      else (sq - (last_sequence st + 1) mod 65536) mod 65536)"
  by (simp add: observe_def Let_def and_0xFFFF)

text \<open>
  Claim C1. On the first call (\<open>last_sequence\<close> unset, that is \<open>-1\<close>) \<open>observe\<close> reports
  0. Otherwise, with \<open>expected = (last_sequence + 1) mod 65536\<close>, it reports 0 when the
  sequence number is the expected one and \<open>(seq - expected) mod 65536\<close>, a value between
  0 and 65535, when it is not. In every case \<open>last_sequence\<close> is the observed number
  afterwards, and \<open>observe 65535\<close> followed by \<open>observe 0\<close> reports 0.
\<close>

theorem observe_contract:
  "(last_sequence st = - 1 \<longrightarrow> fst (observe sq st) = 0)
   \<and> (last_sequence st \<noteq> - 1 \<longrightarrow>
        (sq = (last_sequence st + 1) mod 65536 \<longrightarrow> fst (observe sq st) = 0)
      \<and> (sq \<noteq> (last_sequence st + 1) mod 65536 \<longrightarrow>
           fst (observe sq st) = (sq - (last_sequence st + 1) mod 65536) mod 65536
         \<and> 0 \<le> fst (observe sq st) \<and> fst (observe sq st) \<le> 65535))
   \<and> last_sequence (snd (observe sq st)) = sq
   \<and> fst (observe 0 (snd (observe 65535 st))) = 0"
proof -
  have range: "0 \<le> (x::int) mod 65536 \<and> x mod 65536 \<le> 65535" for x
    by simp
  have wrap: "fst (observe 0 (snd (observe 65535 st))) = 0"
    by (simp add: observe_fst observe_last_sequence)
  show ?thesis
    using range [of "sq - (last_sequence st + 1) mod 65536"] wrap
    by (simp add: observe_fst observe_last_sequence)
qed

theorem observe_contract_witness:
  "last_sequence \<lparr>running = True, packets_received = 1, bytes_received = 12,
                   errors = 0, last_sequence = 5\<rparr> \<noteq> - 1
   \<and> (8::int) \<noteq> (5 + 1) mod 65536
   \<and> fst (observe 8 \<lparr>running = True, packets_received = 1, bytes_received = 12,
                      errors = 0, last_sequence = 5\<rparr>) = 2
   \<and> fst (observe 6 \<lparr>running = True, packets_received = 1, bytes_received = 12,
                      errors = 0, last_sequence = 5\<rparr>) = 0
   \<and> fst (observe 5 \<lparr>running = True, packets_received = 0, bytes_received = 0,
                      errors = 0, last_sequence = - 1\<rparr>) = 0"
  using observe_contract [of "\<lparr>running = True, packets_received = 1, bytes_received = 12,
                                errors = 0, last_sequence = 5\<rparr>" 8]
    observe_contract [of "\<lparr>running = True, packets_received = 1, bytes_received = 12,
                           errors = 0, last_sequence = 5\<rparr>" 6]
    observe_contract [of "\<lparr>running = True, packets_received = 0, bytes_received = 0,
                           errors = 0, last_sequence = - 1\<rparr>" 5]
  by simp

text \<open>
  Claim C2, as the code has it. A duplicate, that is a call that is not the first and
  whose sequence number equals \<open>last_sequence\<close>, is not reported as 0: the expected
  number is one more, so the wrap-around difference is \<open>(-1) mod 65536 = 65535\<close>, and
  \<open>errors\<close> grows by 65535. \<open>last_sequence\<close> keeps its value.
\<close>

theorem duplicate_observe:
  "last_sequence st \<noteq> - 1 \<longrightarrow>
     fst (observe (last_sequence st) st) = 65535
   \<and> errors (snd (observe (last_sequence st) st)) = errors st + 65535
   \<and> last_sequence (snd (observe (last_sequence st) st)) = last_sequence st"
proof
  assume u: "last_sequence st \<noteq> - 1"
  let ?l = "last_sequence st"
  have ne: "?l \<noteq> (?l + 1) mod 65536"
  proof
    assume e: "?l = (?l + 1) mod 65536"
    have "0 \<le> (?l + 1) mod 65536" "(?l + 1) mod 65536 < 65536" by simp_all
    with e have r: "0 \<le> ?l" "?l < 65536" by simp_all
    show False
    proof (cases "?l + 1 < 65536")
      case True
      with r have "(?l + 1) mod 65536 = ?l + 1" by simp
      with e show False by simp
    next
      case False
      with r have "?l = 65535" by simp
      with e show False by simp
    qed
  qed
  have "(?l - (?l + 1) mod 65536) mod 65536 = (?l - (?l + 1)) mod 65536"
    by (rule mod_diff_right_eq)
  then have d: "(?l - (?l + 1) mod 65536) mod 65536 = 65535" by simp
  have f: "fst (observe ?l st) = 65535"
    using u ne d by (simp add: observe_fst)
  show "fst (observe ?l st) = 65535
   \<and> errors (snd (observe ?l st)) = errors st + 65535
   \<and> last_sequence (snd (observe ?l st)) = ?l"
    using f by (simp add: observe_errors observe_last_sequence)
qed

theorem duplicate_observe_witness:
  "last_sequence (snd (observe 5 MinimalAudioReceiver_init)) \<noteq> - 1
   \<and> fst (observe 5 (snd (observe 5 MinimalAudioReceiver_init))) = 65535"
  using duplicate_observe [of "snd (observe 5 MinimalAudioReceiver_init)"]
  by (simp add: observe_last_sequence)

text \<open>
  The example of the specification, \<open>observe 5\<close> twice from the initial state: the
  second call reports 65535, not 0.
\<close>

theorem duplicate_observe_counterexample:
  "last_sequence (snd (observe 5 AudioReceiver_init)) = 5
   \<and> fst (observe 5 (snd (observe 5 AudioReceiver_init))) \<noteq> 0
   \<and> fst (observe 5 (snd (observe 5 AudioReceiver_init))) = 65535
   \<and> errors (snd (observe 5 (snd (observe 5 AudioReceiver_init)))) = 65535"
  by (simp add: observe_def AudioReceiver_init_def)

section \<open>Header Parser: properties\<close>

lemma be_int_snoc: "be_int (bs @ [b]) = be_int bs * 256 + uint b"
  by (simp add: be_int_def)

lemma length_to_be: "length (to_be n x) = n"
  by (induction n arbitrary: x) simp_all

lemma uint_byte_of_mod: "uint (word_of_int (x mod 256) :: byte) = x mod 256"
  by (simp add: uint_word_of_int)

lemma uint_byte_of_int: "0 \<le> k \<Longrightarrow> k < 256 \<Longrightarrow> uint (word_of_int k :: byte) = k"
  by (simp add: uint_word_of_int)

lemma be_int_to_be: "be_int (to_be n x) = x mod 256 ^ n"
proof (induction n arbitrary: x)
  case 0
  then show ?case by (simp add: be_int_def)
next
  case (Suc n)
  have "x mod (256 * 256 ^ n) = 256 * (x div 256 mod 256 ^ n) + x mod 256"
    by (rule zmod_zmult2_eq) simp
  with Suc show ?case by (simp add: be_int_snoc uint_byte_of_mod)
qed

lemma to_be_be_int: "length bs = n \<Longrightarrow> to_be n (be_int bs) = bs"
proof (induction bs arbitrary: n rule: rev_induct)
  case Nil
  then show ?case by simp
next
  case (snoc b bs)
  obtain m where n: "n = Suc m" and m: "length bs = m" using snoc.prems by (cases n) auto
  have b: "0 \<le> uint b" "uint b < 256" using uint_bounded [of b] by simp_all
  then have d: "(be_int bs * 256 + uint b) div 256 = be_int bs"
    and r: "(be_int bs * 256 + uint b) mod 256 = uint b" by simp_all
  have w: "word_of_int (uint b mod 256) = b" using b by simp
  show ?case using snoc.IH [OF m] by (simp add: n be_int_snoc d w)
qed

lemma parse_encode:
  assumes "0 \<le> low6" "low6 < 64" "0 \<le> m" "m \<le> 1" "0 \<le> pt" "pt < 128"
    "0 \<le> sq" "sq < 65536" "0 \<le> ts" "ts < 4294967296" "0 \<le> ssrc" "ssrc < 4294967296"
  shows "parse_rtp (encode_rtp 2 low6 m pt sq ts ssrc payload) =
     Some \<lparr> header = (128 + low6, m * 128 + pt, sq, ts, ssrc), version = 2,
       payload_type = pt, sequence = sq, timestamp = ts, audio_data = payload \<rparr>"
proof -
  let ?b0 = "word_of_int (2 * 64 + low6) :: byte"
  let ?b1 = "word_of_int (m * 128 + pt) :: byte"
  let ?hd = "[?b0, ?b1] @ to_be 2 sq @ to_be 4 ts @ to_be 4 ssrc"
  have len: "length ?hd = 12" by (simp add: length_to_be)
  have enc: "encode_rtp 2 low6 m pt sq ts ssrc payload = ?hd @ payload"
    by (simp add: encode_rtp_def)
  have tk: "take 12 (?hd @ payload) = ?hd" and dr: "drop 12 (?hd @ payload) = payload"
    using len by simp_all
  have u0: "uint ?b0 = 2 * 64 + low6" by (rule uint_byte_of_int) (use assms in simp_all)
  have u1: "uint ?b1 = m * 128 + pt" by (rule uint_byte_of_int) (use assms in simp_all)
  have l2: "length (to_be 2 sq) = 2" and l4: "length (to_be 4 ts) = 4" by (rule length_to_be)+
  have f2: "take 2 (drop 2 ?hd) = to_be 2 sq" using l2 by simp
  have f3: "take 4 (drop 4 ?hd) = to_be 4 ts" using l2 l4 by simp
  have f4: "take 4 (drop 8 ?hd) = to_be 4 ssrc" using l2 l4 length_to_be [of 4 ssrc] by simp
  have un: "unpack_BBHII ?hd = Some (128 + low6, m * 128 + pt, sq, ts, ssrc)"
    unfolding unpack_BBHII_def using len u0 u1 assms
    by (simp only: f2 f3 f4 be_int_to_be) simp
  have v: "drop_bit 6 (128 + low6) AND 0x3 = 2"
    using assms by (simp add: and_0x3 drop_bit_eq_div)
  have p: "(m * 128 + pt) AND 0x7F = pt" using assms by (simp add: and_0x7F)
  show ?thesis
    unfolding parse_rtp_def enc tk dr un using len v p by simp
qed

lemma list12:
  assumes "length xs = 12"
  obtains a b c d e f g h i j k l where "xs = [a, b, c, d, e, f, g, h, i, j, k, l]"
  using assms by (auto simp: length_Suc_conv eval_nat_numeral)

lemma datagram_split:
  assumes "12 \<le> length data"
  obtains a b c d e f g h i j k l where
    "data = [a, b, c, d, e, f, g, h, i, j, k, l] @ drop 12 data"
proof -
  have "length (take 12 data) = 12" using assms by simp
  then obtain a b c d e f g h i j k l where
    "take 12 data = [a, b, c, d, e, f, g, h, i, j, k, l]" by (rule list12)
  then have "data = [a, b, c, d, e, f, g, h, i, j, k, l] @ drop 12 data"
    using append_take_drop_id [of 12 data] by simp
  then show ?thesis by (rule that)
qed

lemma parse_rtp_explicit:
  "parse_rtp ([a, b, c, d, e, f, g, h, i, j, k, l] @ rest) =
     Some \<lparr> header = (uint a, uint b, uint c * 256 + uint d,
                       ((uint e * 256 + uint f) * 256 + uint g) * 256 + uint h,
                       ((uint i * 256 + uint j) * 256 + uint k) * 256 + uint l),
             version = uint a div 64,
             payload_type = uint b mod 128,
             sequence = uint c * 256 + uint d,
             timestamp = ((uint e * 256 + uint f) * 256 + uint g) * 256 + uint h,
             audio_data = rest \<rparr>"
  by (simp add: parse_rtp_def unpack_BBHII_def be_int_def version_bits and_0x7F)

lemma parse_rtp_layout:
  assumes "12 \<le> length data"
  shows "parse_rtp data =
     Some \<lparr> header = (uint (data ! 0), uint (data ! 1),
                       uint (data ! 2) * 256 + uint (data ! 3),
                       ((uint (data ! 4) * 256 + uint (data ! 5)) * 256 + uint (data ! 6)) * 256
                         + uint (data ! 7),
                       ((uint (data ! 8) * 256 + uint (data ! 9)) * 256 + uint (data ! 10)) * 256
                         + uint (data ! 11)),
             version = uint (data ! 0) div 64,
             payload_type = uint (data ! 1) mod 128,
             sequence = uint (data ! 2) * 256 + uint (data ! 3),
             timestamp = ((uint (data ! 4) * 256 + uint (data ! 5)) * 256 + uint (data ! 6)) * 256
                         + uint (data ! 7),
             audio_data = drop 12 data \<rparr>"
proof -
  obtain a b c d e f g h i j k l where
    d: "data = [a, b, c, d, e, f, g, h, i, j, k, l] @ drop 12 data"
    using assms by (rule datagram_split)
  define hd12 where "hd12 = [a, b, c, d, e, f, g, h, i, j, k, l]"
  have len: "length hd12 = 12" by (simp add: hd12_def)
  have n: "data ! m = hd12 ! m" if "m < 12" for m
  proof -
    have "data ! m = (hd12 @ drop 12 data) ! m" using d by (simp add: hd12_def)
    also have "\<dots> = hd12 ! m" using that len by (simp only: nth_append if_True)
    finally show ?thesis .
  qed
  have p: "parse_rtp data = parse_rtp ([a, b, c, d, e, f, g, h, i, j, k, l] @ drop 12 data)"
    using d by simp
  show ?thesis
    unfolding p parse_rtp_explicit
    by (simp add: n hd12_def)
qed

lemma parse_rtp_None_iff: "parse_rtp data = None \<longleftrightarrow> length data < 12"
proof (cases "length data < 12")
  case True
  then show ?thesis by (simp add: parse_rtp_def)
next
  case False
  then have "12 \<le> length data" by simp
  from parse_rtp_layout [OF this] False show ?thesis by simp
qed

lemma encode_parse_explicit:
  "encode_rtp (uint a div 64) (uint a mod 64) (uint b div 128) (uint b mod 128)
     (uint c * 256 + uint d)
     (((uint e * 256 + uint f) * 256 + uint g) * 256 + uint h)
     (((uint i * 256 + uint j) * 256 + uint k) * 256 + uint l) rest
   = [a, b, c, d, e, f, g, h, i, j, k, l] @ rest"
proof -
  have a: "word_of_int (uint a div 64 * 64 + uint a mod 64) = a" by simp
  have b: "word_of_int (uint b div 128 * 128 + uint b mod 128) = b" by simp
  have s: "to_be 2 (be_int [c, d]) = [c, d]" by (rule to_be_be_int) simp
  have t: "to_be 4 (be_int [e, f, g, h]) = [e, f, g, h]" by (rule to_be_be_int) simp
  have u: "to_be 4 (be_int [i, j, k, l]) = [i, j, k, l]" by (rule to_be_be_int) simp
  have s': "be_int [c, d] = uint c * 256 + uint d" by (simp add: be_int_def)
  have t': "be_int [e, f, g, h] = ((uint e * 256 + uint f) * 256 + uint g) * 256 + uint h"
    by (simp add: be_int_def)
  have u': "be_int [i, j, k, l] = ((uint i * 256 + uint j) * 256 + uint k) * 256 + uint l"
    by (simp add: be_int_def)
  show ?thesis
    unfolding encode_rtp_def a b s' [symmetric] t' [symmetric] u' [symmetric] s t u
    by simp
qed

lemma encode_parse_layout:
  assumes "12 \<le> length data"
  shows "encode_rtp (uint (data ! 0) div 64) (uint (data ! 0) mod 64)
           (uint (data ! 1) div 128) (uint (data ! 1) mod 128)
           (uint (data ! 2) * 256 + uint (data ! 3))
           (((uint (data ! 4) * 256 + uint (data ! 5)) * 256 + uint (data ! 6)) * 256
              + uint (data ! 7))
           (((uint (data ! 8) * 256 + uint (data ! 9)) * 256 + uint (data ! 10)) * 256
              + uint (data ! 11))
           (drop 12 data) = data"
proof -
  obtain a b c d e f g h i j k l where
    d: "data = [a, b, c, d, e, f, g, h, i, j, k, l] @ drop 12 data"
    using assms by (rule datagram_split)
  define hd12 where "hd12 = [a, b, c, d, e, f, g, h, i, j, k, l]"
  have len: "length hd12 = 12" by (simp add: hd12_def)
  have n: "data ! m = hd12 ! m" if "m < 12" for m
  proof -
    have "data ! m = (hd12 @ drop 12 data) ! m" using d by (simp add: hd12_def)
    also have "\<dots> = hd12 ! m" using that len by (simp only: nth_append if_True)
    finally show ?thesis .
  qed
  have "encode_rtp (uint (data ! 0) div 64) (uint (data ! 0) mod 64)
           (uint (data ! 1) div 128) (uint (data ! 1) mod 128)
           (uint (data ! 2) * 256 + uint (data ! 3))
           (((uint (data ! 4) * 256 + uint (data ! 5)) * 256 + uint (data ! 6)) * 256
              + uint (data ! 7))
           (((uint (data ! 8) * 256 + uint (data ! 9)) * 256 + uint (data ! 10)) * 256
              + uint (data ! 11))
           (drop 12 data) = [a, b, c, d, e, f, g, h, i, j, k, l] @ drop 12 data"
    using encode_parse_explicit [of a b c d e f g h i j k l "drop 12 data"]
    by (simp add: n hd12_def)
  with d show ?thesis by simp
qed

text \<open>
  Claim C3. For every datagram of at least 12 bytes whose version bits are 2, the
  parser accepts it and decodes the fixed header big-endian: version from bits 7..6 of
  byte 0, payload type from bits 6..0 of byte 1, sequence from bytes 2..3, timestamp
  from bytes 4..7, SSRC (the last component of \<open>header\<close>) from bytes 8..11, and the
  payload from offset 12 on. The synthetic encoder and the parser are inverse to each
  other: encoding the parsed fields gives the datagram back, and parsing the encoding
  of fields that fit their widths gives the fields back.
\<close>

theorem rtp_header_roundtrip:
  "(12 \<le> length data \<and> uint (data ! 0) div 64 = 2 \<longrightarrow>
      accept_rtp data =
        Some \<lparr> header = (uint (data ! 0), uint (data ! 1),
                  uint (data ! 2) * 256 + uint (data ! 3),
                  ((uint (data ! 4) * 256 + uint (data ! 5)) * 256 + uint (data ! 6)) * 256
                    + uint (data ! 7),
                  ((uint (data ! 8) * 256 + uint (data ! 9)) * 256 + uint (data ! 10)) * 256
                    + uint (data ! 11)),
                version = 2,
                payload_type = uint (data ! 1) mod 128,
                sequence = uint (data ! 2) * 256 + uint (data ! 3),
                timestamp =
                  ((uint (data ! 4) * 256 + uint (data ! 5)) * 256 + uint (data ! 6)) * 256
                    + uint (data ! 7),
                audio_data = drop 12 data \<rparr>
    \<and> encode_rtp 2 (uint (data ! 0) mod 64)
           (uint (data ! 1) div 128) (uint (data ! 1) mod 128)
           (uint (data ! 2) * 256 + uint (data ! 3))
           (((uint (data ! 4) * 256 + uint (data ! 5)) * 256 + uint (data ! 6)) * 256
              + uint (data ! 7))
           (((uint (data ! 8) * 256 + uint (data ! 9)) * 256 + uint (data ! 10)) * 256
              + uint (data ! 11))
           (drop 12 data) = data)
   \<and> (0 \<le> low6 \<and> low6 < 64 \<and> 0 \<le> m \<and> m \<le> 1 \<and> 0 \<le> pt \<and> pt < 128
      \<and> 0 \<le> sq \<and> sq < 65536 \<and> 0 \<le> ts \<and> ts < 4294967296
      \<and> 0 \<le> ssrc \<and> ssrc < 4294967296 \<longrightarrow>
      accept_rtp (encode_rtp 2 low6 m pt sq ts ssrc payload) =
        Some \<lparr> header = (128 + low6, m * 128 + pt, sq, ts, ssrc), version = 2,
                payload_type = pt, sequence = sq, timestamp = ts,
                audio_data = payload \<rparr>)"
proof (intro conjI impI)
  assume a: "12 \<le> length data \<and> uint (data ! 0) div 64 = 2"
  then have len: "12 \<le> length data" and v: "uint (data ! 0) div 64 = 2" by simp_all
  show "accept_rtp data =
        Some \<lparr> header = (uint (data ! 0), uint (data ! 1),
                  uint (data ! 2) * 256 + uint (data ! 3),
                  ((uint (data ! 4) * 256 + uint (data ! 5)) * 256 + uint (data ! 6)) * 256
                    + uint (data ! 7),
                  ((uint (data ! 8) * 256 + uint (data ! 9)) * 256 + uint (data ! 10)) * 256
                    + uint (data ! 11)),
                version = 2,
                payload_type = uint (data ! 1) mod 128,
                sequence = uint (data ! 2) * 256 + uint (data ! 3),
                timestamp =
                  ((uint (data ! 4) * 256 + uint (data ! 5)) * 256 + uint (data ! 6)) * 256
                    + uint (data ! 7),
                audio_data = drop 12 data \<rparr>"
    unfolding accept_rtp_def parse_rtp_layout [OF len] v by simp
  show "encode_rtp 2 (uint (data ! 0) mod 64)
           (uint (data ! 1) div 128) (uint (data ! 1) mod 128)
           (uint (data ! 2) * 256 + uint (data ! 3))
           (((uint (data ! 4) * 256 + uint (data ! 5)) * 256 + uint (data ! 6)) * 256
              + uint (data ! 7))
           (((uint (data ! 8) * 256 + uint (data ! 9)) * 256 + uint (data ! 10)) * 256
              + uint (data ! 11))
           (drop 12 data) = data"
    using encode_parse_layout [OF len] unfolding v .
next
  assume "0 \<le> low6 \<and> low6 < 64 \<and> 0 \<le> m \<and> m \<le> 1 \<and> 0 \<le> pt \<and> pt < 128
      \<and> 0 \<le> sq \<and> sq < 65536 \<and> 0 \<le> ts \<and> ts < 4294967296
      \<and> 0 \<le> ssrc \<and> ssrc < 4294967296"
  then have "parse_rtp (encode_rtp 2 low6 m pt sq ts ssrc payload) =
     Some \<lparr> header = (128 + low6, m * 128 + pt, sq, ts, ssrc), version = 2,
       payload_type = pt, sequence = sq, timestamp = ts, audio_data = payload \<rparr>"
    by (intro parse_encode) simp_all
  then show "accept_rtp (encode_rtp 2 low6 m pt sq ts ssrc payload) =
        Some \<lparr> header = (128 + low6, m * 128 + pt, sq, ts, ssrc), version = 2,
                payload_type = pt, sequence = sq, timestamp = ts,
                audio_data = payload \<rparr>"
    by (simp add: accept_rtp_def)
qed

theorem rtp_header_roundtrip_witness:
  "12 \<le> length [0x80, 0x60, 0x12, 0x34, 0, 0, 0, 1, 0xDE, 0xAD, 0xBE, 0xEF, 7, 9 :: byte]
   \<and> uint ([0x80, 0x60, 0x12, 0x34, 0, 0, 0, 1, 0xDE, 0xAD, 0xBE, 0xEF, 7, 9 :: byte] ! 0) div 64 = 2
   \<and> accept_rtp [0x80, 0x60, 0x12, 0x34, 0, 0, 0, 1, 0xDE, 0xAD, 0xBE, 0xEF, 7, 9] =
       Some \<lparr> header = (128, 96, 4660, 1, 3735928559), version = 2, payload_type = 96,
               sequence = 4660, timestamp = 1, audio_data = [7, 9] \<rparr>
   \<and> encode_rtp 2 0 0 96 4660 1 3735928559 [7, 9] =
       [0x80, 0x60, 0x12, 0x34, 0, 0, 0, 1, 0xDE, 0xAD, 0xBE, 0xEF, 7, 9]
   \<and> accept_rtp (encode_rtp 2 0 0 96 4660 1 3735928559 [7, 9]) =
       Some \<lparr> header = (128, 96, 4660, 1, 3735928559), version = 2, payload_type = 96,
               sequence = 4660, timestamp = 1, audio_data = [7, 9] \<rparr>"
  using rtp_header_roundtrip
    [of "[0x80, 0x60, 0x12, 0x34, 0, 0, 0, 1, 0xDE, 0xAD, 0xBE, 0xEF, 7, 9]"
        0 0 96 4660 1 3735928559 "[7, 9]"]
  by simp

lemma accept_rtp_None_iff:
  "accept_rtp data = None \<longleftrightarrow> length data < 12 \<or> uint (data ! 0) div 64 \<noteq> 2"
proof (cases "length data < 12")
  case True
  then show ?thesis by (simp add: accept_rtp_def parse_rtp_def)
next
  case False
  then have "12 \<le> length data" by simp
  from parse_rtp_layout [OF this] False show ?thesis
    by (simp add: accept_rtp_def)
qed

lemma accept_rtp_SomeD:
  assumes "accept_rtp data = Some p"
  shows "12 \<le> length data" "version p = 2" "audio_data p = drop 12 data"
    "sequence p = uint (data ! 2) * 256 + uint (data ! 3)"
proof -
  show len: "12 \<le> length data"
    using assms by (cases "length data < 12") (simp_all add: accept_rtp_def parse_rtp_def)
  from parse_rtp_layout [OF len] assms
  show "version p = 2" "audio_data p = drop 12 data"
    "sequence p = uint (data ! 2) * 256 + uint (data ! 3)"
    by (auto simp: accept_rtp_def split: if_splits)
qed

section \<open>Clock readings and the loop in general\<close>

lemma py_int_of_int [simp]: "py_int (real_of_int n) = n"
  by (simp add: py_int_def)

lemma py_int_nonneg:
  assumes "0 \<le> x"
  shows "real_of_int (py_int x) \<le> x" "x < real_of_int (py_int x) + 1" "0 \<le> py_int x"
  using assms by (simp_all add: py_int_def)

lemma py_int_mono_nonneg: "0 \<le> x \<Longrightarrow> x \<le> y \<Longrightarrow> py_int x \<le> py_int y"
  by (simp add: py_int_def floor_mono)

lemma py_int_ge_one: "1 \<le> x \<Longrightarrow> 1 \<le> py_int x"
  using py_int_mono_nonneg [of 1 x] by (simp add: py_int_def)

lemma receive_loop_step:
  "running st \<Longrightarrow> fst (body x st) = Continue \<Longrightarrow>
     receive_loop body (x # xs) st = receive_loop body xs (snd (body x st))"
  by (cases "body x st") simp

lemma receive_loop_invariant:
  assumes "I st" and "\<And>x st. x \<in> set xs \<Longrightarrow> I st \<Longrightarrow> I (snd (body x st))"
  shows "I (snd (receive_loop body xs st))"
  using assms
proof (induction xs arbitrary: st)
  case Nil
  then show ?case by simp
next
  case (Cons x xs)
  show ?case
  proof (cases "running st")
    case False
    with Cons.prems(1) show ?thesis by simp
  next
    case True
    obtain c st' where b: "body x st = (c, st')" by (cases "body x st")
    have i': "I st'" using Cons.prems(2) [of x st] Cons.prems(1) b by simp
    show ?thesis
    proof (cases c)
      case Continue
      have "I (snd (receive_loop body xs st'))"
        by (rule Cons.IH [OF i']) (simp add: Cons.prems(2))
      with True b Continue show ?thesis by simp
    next
      case Break
      with True b i' show ?thesis by simp
    qed
  qed
qed

lemma receive_loop_continues:
  assumes "running st"
    and "\<And>x st. x \<in> set xs \<Longrightarrow> running st \<Longrightarrow>
           fst (body x st) = Continue \<and> running (snd (body x st))"
  shows "fst (receive_loop body xs st) = Continue \<and> running (snd (receive_loop body xs st))"
  using assms
proof (induction xs arbitrary: st)
  case Nil
  then show ?case by simp
next
  case (Cons x xs)
  have b: "fst (body x st) = Continue \<and> running (snd (body x st))"
    using Cons.prems(2) [of x st] Cons.prems(1) by simp
  then have s: "receive_loop body (x # xs) st = receive_loop body xs (snd (body x st))"
    using Cons.prems(1) by (intro receive_loop_step) simp_all
  have "fst (receive_loop body xs (snd (body x st))) = Continue
      \<and> running (snd (receive_loop body xs (snd (body x st))))"
    by (rule Cons.IH) (use b Cons.prems(2) in simp_all)
  with s show ?case by simp
qed

lemma receive_loop_Continue_running:
  "receive_loop body xs st = (Continue, st') \<Longrightarrow> running st'"
proof (induction xs arbitrary: st)
  case Nil
  then show ?case by (simp split: if_splits)
next
  case (Cons x xs)
  then show ?case
    by (cases "body x st") (auto split: if_splits loop_ctl.splits)
qed


section \<open>The receive loop: datagrams that fail validation\<close>

lemma handle_datagram_rejected:
  "accept_rtp data = None \<Longrightarrow>
     handle_datagram data now wr st = st\<lparr>last_packet_time := py_int now\<rparr>"
  by (simp add: handle_datagram_def)

lemma handle_datagram_last_packet_time:
  "last_packet_time (handle_datagram data now wr st) = py_int now"
  by (simp add: handle_datagram_def update_statistics_def observe_def on_exception_def
      on_socket_timeout_def Let_def split: option.splits)

lemma handle_datagram_frame:
  "running (handle_datagram data now wr st) = running st"
  "stream_start_time (handle_datagram data now wr st) = stream_start_time st"
  by (simp_all add: handle_datagram_def update_statistics_def observe_def on_exception_def
      on_socket_timeout_def Let_def split: option.splits)

text \<open>
  Claim C4. A received datagram shorter than 12 bytes, or whose version bits are not
  2, leaves \<open>last_sequence\<close> (the Sequence Tracker is not run), the trace of sink writes
  and the counters \<open>packets_received\<close>, \<open>bytes_received\<close> and \<open>errors\<close> as they were,
  and the loop goes on. In the minimal and the simple variant the whole state is
  unchanged; in the main variant the only field that changes is \<open>last_packet_time\<close>.
\<close>

theorem rejected_datagram_frame:
  assumes "length data < 12 \<or> uint (data ! 0) div 64 \<noteq> 2"
  shows "(recv x = Received data addr \<longrightarrow>
            fst (iteration x st) = Continue
          \<and> last_sequence (snd (iteration x st)) = last_sequence st
          \<and> pcm_writes (snd (iteration x st)) = pcm_writes st
          \<and> packets_received (snd (iteration x st)) = packets_received st
          \<and> bytes_received (snd (iteration x st)) = bytes_received st
          \<and> errors (snd (iteration x st)) = errors st)
       \<and> (recv y = Received data addr \<longrightarrow> minimal_iteration y mst = (Continue, mst))
       \<and> (recv z = Received data addr \<longrightarrow> simple_iteration z sst = (Continue, sst))"
proof -
  from assms have rej: "accept_rtp data = None" by (simp add: accept_rtp_None_iff)
  show ?thesis
    by (simp add: iteration_def minimal_iteration_def simple_iteration_def
        handle_datagram_rejected [OF rej] minimal_handle_datagram_def
        simple_handle_datagram_def rej)
qed

theorem rejected_datagram_frame_witness:
  "(length [0x80, 0x60, 0, 7 :: byte] < 12 \<or> uint ([0x80, 0x60, 0, 7 :: byte] ! 0) div 64 \<noteq> 2)
   \<and> iteration \<lparr>recv = Received [0x80, 0x60, 0, 7] ''10.0.0.9'', clock = 1000,
                   sink_write = None, popen_ok = True\<rparr>
        (snd (start True 990 AudioReceiver_init))
      = (Continue, (snd (start True 990 AudioReceiver_init))\<lparr>last_packet_time := 1000\<rparr>)
   \<and> packets_received (snd (iteration \<lparr>recv = Received [0x80, 0x60, 0, 7] ''10.0.0.9'',
        clock = 1000, sink_write = None, popen_ok = True\<rparr>
        (snd (start True 990 AudioReceiver_init)))) = 0
   \<and> minimal_iteration \<lparr>recv = Received [0x80, 0x60, 0, 7] ''10.0.0.9'', clock = 1000 :: int,
                   sink_write = None, popen_ok = True\<rparr> MinimalAudioReceiver_init
      = (Continue, MinimalAudioReceiver_init)"
  using rejected_datagram_frame [of "[0x80, 0x60, 0, 7]"
      "\<lparr>recv = Received [0x80, 0x60, 0, 7] ''10.0.0.9'', clock = 1000,
        sink_write = None, popen_ok = True\<rparr>" "''10.0.0.9''"
      "snd (start True 990 AudioReceiver_init)"
      "\<lparr>recv = Received [0x80, 0x60, 0, 7] ''10.0.0.9'', clock = 1000 :: int,
        sink_write = None, popen_ok = True\<rparr>" MinimalAudioReceiver_init
      "\<lparr>recv = SocketTimeout, clock = 1000, sink_write = None, popen_ok = True\<rparr>"
      "SimpleAudioReceiver_init 0"]
  by (simp add: iteration_def handle_datagram_def accept_rtp_def parse_rtp_def
      start_def AudioReceiver_init_def py_int_def)

text \<open>
  Claim C5 does not hold in the main variant: \<^verbatim>\<open>self.stats["last_packet_time"]\<close> is
  assigned right after \<^verbatim>\<open>recvfrom\<close>, before the length and version tests. A 4-byte
  datagram, which fails validation, moves \<open>last_packet_time\<close> from 0 to the clock
  reading 1000, and the connection status goes from \<open>WAITING\<close> to \<open>GOOD\<close> although no
  valid packet has been received. Every datagram does so
  (\<open>handle_datagram_last_packet_time\<close>). The simple variant assigns its
  \<^verbatim>\<open>self.last_packet_time\<close> after validation only.
\<close>

theorem invalid_datagram_sets_last_packet_time:
  "accept_rtp [0x80, 0x60, 0, 7] = None
   \<and> get_connection_status 1000 (snd (start True 990 AudioReceiver_init)) = WAITING
   \<and> last_packet_time
        (snd (iteration \<lparr>recv = Received [0x80, 0x60, 0, 7] ''10.0.0.9'', clock = 1000,
                          sink_write = None, popen_ok = True\<rparr>
               (snd (start True 990 AudioReceiver_init)))) = 1000
   \<and> get_connection_status 1000
        (snd (iteration \<lparr>recv = Received [0x80, 0x60, 0, 7] ''10.0.0.9'', clock = 1000,
                          sink_write = None, popen_ok = True\<rparr>
               (snd (start True 990 AudioReceiver_init)))) = GOOD"
  by (simp add: iteration_def handle_datagram_def accept_rtp_def parse_rtp_def
      start_def AudioReceiver_init_def get_connection_status_def py_int_def)

section \<open>Connection Monitor\<close>

lemma get_connection_status_running:
  assumes "running st" "last_packet_time st \<noteq> 0"
  shows "get_connection_status now st =
     (if py_int now - last_packet_time st < 2 then GOOD
      else if py_int now - last_packet_time st < 10 then SLOW else DISCONNECTED)"
  using assms by (simp add: get_connection_status_def Let_def)

lemma iteration_no_datagram_last_packet_time:
  assumes "\<forall>data addr. recv x \<noteq> Received data addr"
  shows "last_packet_time (snd (iteration x st)) = last_packet_time st"
  using assms
  by (cases "recv x") (simp_all add: iteration_def on_socket_timeout_def on_exception_def)

lemma run_no_datagram_waiting:
  assumes "\<forall>x \<in> set xs. \<forall>data addr. recv x \<noteq> Received data addr"
  shows "last_packet_time (snd (run True t0 xs AudioReceiver_init)) = 0"
    and "fst (run True t0 xs AudioReceiver_init) = Continue \<Longrightarrow>
         get_connection_status now (snd (run True t0 xs AudioReceiver_init)) = WAITING"
proof -
  define st0 where "st0 = AudioReceiver_init\<lparr>running := True, stream_start_time := py_int t0\<rparr>"
  have "last_packet_time st0 = 0" by (simp add: st0_def AudioReceiver_init_def)
  moreover have "last_packet_time (snd (iteration x st)) = 0"
    if "x \<in> set xs" "last_packet_time st = 0" for x st
    using iteration_no_datagram_last_packet_time [of x st] assms that by simp
  ultimately have l: "last_packet_time (snd (receive_loop iteration xs st0)) = 0"
    by (rule receive_loop_invariant [where I = "\<lambda>st. last_packet_time st = 0"])
  obtain c st' where r: "receive_loop iteration xs st0 = (c, st')"
    by (cases "receive_loop iteration xs st0")
  have run: "run True t0 xs AudioReceiver_init = (c, if c = Continue then st' else stop st')"
    using r by (cases c) (simp_all add: run_def start_def st0_def)
  show z: "last_packet_time (snd (run True t0 xs AudioReceiver_init)) = 0"
    using l r run by (simp add: stop_def)
  assume "fst (run True t0 xs AudioReceiver_init) = Continue"
  with run have c: "c = Continue" by simp
  with r have "running st'" by (simp add: receive_loop_Continue_running)
  with z run c show "get_connection_status now (snd (run True t0 xs AudioReceiver_init)) = WAITING"
    by (simp add: get_connection_status_def)
qed

lemma status_after_packet:
  assumes run: "running st" and rx: "recv x = Received data addr"
    and t: "1 \<le> clock x" "clock x \<le> now"
  defines "s \<equiv> get_connection_status now (snd (iteration x st))"
  shows "now - clock x < 1 \<longrightarrow> s = GOOD"
    and "2 \<le> now - clock x \<and> now - clock x < 9 \<longrightarrow> s = SLOW"
    and "10 \<le> now - clock x \<longrightarrow> s = DISCONNECTED"
    and "s = GOOD \<longrightarrow> now - clock x < 2"
    and "s = SLOW \<longrightarrow> 1 < now - clock x \<and> now - clock x < 10"
    and "s = DISCONNECTED \<longrightarrow> 9 < now - clock x"
proof -
  define l where "l = py_int (clock x)"
  define a where "a = py_int now"
  have lp: "last_packet_time (snd (iteration x st)) = l"
    and r: "running (snd (iteration x st))"
    using run rx by (simp_all add: iteration_def handle_datagram_last_packet_time
        handle_datagram_frame l_def)
  have l1: "1 \<le> l" unfolding l_def by (rule py_int_ge_one) (rule t(1))
  have bl: "real_of_int l \<le> clock x" "clock x < real_of_int l + 1"
    unfolding l_def using t(1) by (simp_all add: py_int_nonneg)
  have ba: "real_of_int a \<le> now" "now < real_of_int a + 1"
    unfolding a_def using t by (simp_all add: py_int_nonneg)
  have s: "s = (if a - l < 2 then GOOD else if a - l < 10 then SLOW else DISCONNECTED)"
    unfolding s_def a_def using l1 lp r by (simp add: get_connection_status_running)
  have good: "a - l < 2" if "now - clock x < 1"
  proof -
    from that bl ba have "real_of_int a < real_of_int l + 2" by linarith
    then show ?thesis by linarith
  qed
  have good': "now - clock x < 2" if "a - l < 2"
  proof -
    from that have "real_of_int a + 1 \<le> real_of_int l + 2" by linarith
    with bl ba show ?thesis by linarith
  qed
  have slow_lo: "2 \<le> a - l" if "2 \<le> now - clock x"
  proof -
    from that bl ba have "real_of_int l + 2 < real_of_int a + 1" by linarith
    then show ?thesis by linarith
  qed
  have slow_hi: "a - l < 10" if "now - clock x < 9"
  proof -
    from that bl ba have "real_of_int a < real_of_int l + 10" by linarith
    then show ?thesis by linarith
  qed
  have slow_lo': "1 < now - clock x" if "2 \<le> a - l"
  proof -
    from that have "real_of_int l + 2 \<le> real_of_int a" by linarith
    with bl ba show ?thesis by linarith
  qed
  have slow_hi': "now - clock x < 10" if "a - l < 10"
  proof -
    from that have "real_of_int a + 1 \<le> real_of_int l + 10" by linarith
    with bl ba show ?thesis by linarith
  qed
  have disc: "10 \<le> a - l" if "10 \<le> now - clock x"
  proof -
    from that bl ba have "real_of_int l + 10 < real_of_int a + 1" by linarith
    then show ?thesis by linarith
  qed
  have disc': "9 < now - clock x" if "10 \<le> a - l"
  proof -
    from that have "real_of_int l + 10 \<le> real_of_int a" by linarith
    with bl ba show ?thesis by linarith
  qed
  show "now - clock x < 1 \<longrightarrow> s = GOOD" using good by (simp add: s)
  show "2 \<le> now - clock x \<and> now - clock x < 9 \<longrightarrow> s = SLOW"
    using slow_lo slow_hi by (auto simp: s)
  show "10 \<le> now - clock x \<longrightarrow> s = DISCONNECTED" using disc by (auto simp: s)
  show "s = GOOD \<longrightarrow> now - clock x < 2" using good' by (auto simp: s split: if_splits)
  show "s = SLOW \<longrightarrow> 1 < now - clock x \<and> now - clock x < 10"
    using slow_lo' slow_hi' by (auto simp: s split: if_splits)
  show "s = DISCONNECTED \<longrightarrow> 9 < now - clock x"
    using disc' by (auto simp: s split: if_splits)
qed

text \<open>
  Claim C6, as the code has it. \<^verbatim>\<open>get_connection_status\<close> returns \<open>STOPPED\<close> exactly
  when the receiver is not running and \<open>WAITING\<close> exactly when it runs and
  \<open>last_packet_time\<close> is still 0, which is so as long as no datagram has been received
  since the start. Otherwise, with \<open>e\<close> the difference between \<^verbatim>\<open>int(now)\<close> and the stored
  \<open>last_packet_time\<close>, in whole seconds, it returns \<open>GOOD\<close> exactly when \<open>e < 2\<close>,
  \<open>SLOW\<close> exactly when \<open>2 \<le> e < 10\<close> and \<open>DISCONNECTED\<close> exactly when \<open>10 \<le> e\<close>:
  one status for every input. Both readings are truncated, so in real time, after a
  valid packet received at clock \<open>t \<ge> 1\<close> and with \<open>d = now - t \<ge> 0\<close>: \<open>d < 1\<close>
  gives \<open>GOOD\<close>, \<open>2 \<le> d < 9\<close> gives \<open>SLOW\<close>, \<open>10 \<le> d\<close> gives \<open>DISCONNECTED\<close>, and
  \<open>GOOD\<close> is returned only when \<open>d < 2\<close>, \<open>SLOW\<close> only when \<open>1 < d < 10\<close>,
  \<open>DISCONNECTED\<close> only when \<open>9 < d\<close>. What a datagram that fails validation does to
  \<open>last_packet_time\<close> is the matter of claim C5 and is not part of this statement.
\<close>

theorem connection_status_cases:
  "(get_connection_status now st = STOPPED \<longleftrightarrow> \<not> running st)
   \<and> (get_connection_status now st = WAITING \<longleftrightarrow> running st \<and> last_packet_time st = 0)
   \<and> (get_connection_status now st = GOOD \<longleftrightarrow>
        running st \<and> last_packet_time st \<noteq> 0 \<and> py_int now - last_packet_time st < 2)
   \<and> (get_connection_status now st = SLOW \<longleftrightarrow>
        running st \<and> last_packet_time st \<noteq> 0
        \<and> 2 \<le> py_int now - last_packet_time st \<and> py_int now - last_packet_time st < 10)
   \<and> (get_connection_status now st = DISCONNECTED \<longleftrightarrow>
        running st \<and> last_packet_time st \<noteq> 0 \<and> 10 \<le> py_int now - last_packet_time st)
   \<and> ((\<forall>x \<in> set xs. \<forall>data addr. recv x \<noteq> Received data addr)
        \<and> fst (run True t0 xs AudioReceiver_init) = Continue \<longrightarrow>
        get_connection_status now (snd (run True t0 xs AudioReceiver_init)) = WAITING)
   \<and> (running rst \<and> recv rx = Received data addr
        \<and> 12 \<le> length data \<and> uint (data ! 0) div 64 = 2
        \<and> 1 \<le> clock rx \<and> clock rx \<le> now \<longrightarrow>
        (now - clock rx < 1 \<longrightarrow>
           get_connection_status now (snd (iteration rx rst)) = GOOD)
      \<and> (2 \<le> now - clock rx \<and> now - clock rx < 9 \<longrightarrow>
           get_connection_status now (snd (iteration rx rst)) = SLOW)
      \<and> (10 \<le> now - clock rx \<longrightarrow>
           get_connection_status now (snd (iteration rx rst)) = DISCONNECTED)
      \<and> (get_connection_status now (snd (iteration rx rst)) = GOOD \<longrightarrow>
           now - clock rx < 2)
      \<and> (get_connection_status now (snd (iteration rx rst)) = SLOW \<longrightarrow>
           1 < now - clock rx \<and> now - clock rx < 10)
      \<and> (get_connection_status now (snd (iteration rx rst)) = DISCONNECTED \<longrightarrow>
           9 < now - clock rx))"
proof -
  have stopped: "get_connection_status now st = STOPPED \<longleftrightarrow> \<not> running st"
    by (simp add: get_connection_status_def Let_def)
  have waiting: "get_connection_status now st = WAITING
      \<longleftrightarrow> running st \<and> last_packet_time st = 0"
    by (simp add: get_connection_status_def Let_def)
  have rest: "(get_connection_status now st = GOOD \<longleftrightarrow>
        running st \<and> last_packet_time st \<noteq> 0 \<and> py_int now - last_packet_time st < 2)
   \<and> (get_connection_status now st = SLOW \<longleftrightarrow>
        running st \<and> last_packet_time st \<noteq> 0
        \<and> 2 \<le> py_int now - last_packet_time st \<and> py_int now - last_packet_time st < 10)
   \<and> (get_connection_status now st = DISCONNECTED \<longleftrightarrow>
        running st \<and> last_packet_time st \<noteq> 0 \<and> 10 \<le> py_int now - last_packet_time st)"
  proof (cases "running st \<and> last_packet_time st \<noteq> 0")
    case True
    then show ?thesis by (simp add: get_connection_status_running)
  next
    case False
    then show ?thesis by (auto simp: get_connection_status_def)
  qed
  have quiet: "(\<forall>x \<in> set xs. \<forall>data addr. recv x \<noteq> Received data addr)
        \<and> fst (run True t0 xs AudioReceiver_init) = Continue \<longrightarrow>
        get_connection_status now (snd (run True t0 xs AudioReceiver_init)) = WAITING"
    using run_no_datagram_waiting(2) [of xs t0 now] by blast
  have packet: "running rst \<and> recv rx = Received data addr
        \<and> 12 \<le> length data \<and> uint (data ! 0) div 64 = 2
        \<and> 1 \<le> clock rx \<and> clock rx \<le> now \<longrightarrow>
        (now - clock rx < 1 \<longrightarrow>
           get_connection_status now (snd (iteration rx rst)) = GOOD)
      \<and> (2 \<le> now - clock rx \<and> now - clock rx < 9 \<longrightarrow>
           get_connection_status now (snd (iteration rx rst)) = SLOW)
      \<and> (10 \<le> now - clock rx \<longrightarrow>
           get_connection_status now (snd (iteration rx rst)) = DISCONNECTED)
      \<and> (get_connection_status now (snd (iteration rx rst)) = GOOD \<longrightarrow>
           now - clock rx < 2)
      \<and> (get_connection_status now (snd (iteration rx rst)) = SLOW \<longrightarrow>
           1 < now - clock rx \<and> now - clock rx < 10)
      \<and> (get_connection_status now (snd (iteration rx rst)) = DISCONNECTED \<longrightarrow>
           9 < now - clock rx)"
  proof
    assume a: "running rst \<and> recv rx = Received data addr
        \<and> 12 \<le> length data \<and> uint (data ! 0) div 64 = 2
        \<and> 1 \<le> clock rx \<and> clock rx \<le> now"
    then have h: "running rst" "recv rx = Received data addr" "1 \<le> clock rx" "clock rx \<le> now"
      by simp_all
    from status_after_packet [OF h]
    show "(now - clock rx < 1 \<longrightarrow>
           get_connection_status now (snd (iteration rx rst)) = GOOD)
      \<and> (2 \<le> now - clock rx \<and> now - clock rx < 9 \<longrightarrow>
           get_connection_status now (snd (iteration rx rst)) = SLOW)
      \<and> (10 \<le> now - clock rx \<longrightarrow>
           get_connection_status now (snd (iteration rx rst)) = DISCONNECTED)
      \<and> (get_connection_status now (snd (iteration rx rst)) = GOOD \<longrightarrow>
           now - clock rx < 2)
      \<and> (get_connection_status now (snd (iteration rx rst)) = SLOW \<longrightarrow>
           1 < now - clock rx \<and> now - clock rx < 10)
      \<and> (get_connection_status now (snd (iteration rx rst)) = DISCONNECTED \<longrightarrow>
           9 < now - clock rx)"
      by (intro conjI)
  qed
  from stopped waiting rest quiet packet show ?thesis by (intro conjI) blast+
qed

theorem connection_status_cases_witness:
  "get_connection_status 1000 AudioReceiver_init = STOPPED
   \<and> fst (run True 990
        [\<lparr>recv = SocketTimeout, clock = 991, sink_write = None, popen_ok = True\<rparr>]
        AudioReceiver_init) = Continue
   \<and> get_connection_status 1000 (snd (run True 990
        [\<lparr>recv = SocketTimeout, clock = 991, sink_write = None, popen_ok = True\<rparr>]
        AudioReceiver_init)) = WAITING
   \<and> running (snd (start True 990 AudioReceiver_init))
   \<and> 12 \<le> length ([0x80, 0x60, 0, 7, 0, 0, 0, 0, 0, 0, 0, 0, 1, 2] :: byte list)
   \<and> (1000 :: real) - 9995 / 10 < 1
   \<and> get_connection_status 1000 (snd (iteration
        \<lparr>recv = Received [0x80, 0x60, 0, 7, 0, 0, 0, 0, 0, 0, 0, 0, 1, 2] ''10.0.0.9'', clock = 9995 / 10, sink_write = None,
          popen_ok = True\<rparr> (snd (start True 990 AudioReceiver_init)))) = GOOD"
proof -
  have q: "(\<forall>x \<in> set [\<lparr>recv = SocketTimeout, clock = 991 :: real, sink_write = None,
               popen_ok = True\<rparr>]. \<forall>data addr. recv x \<noteq> Received data addr)
     \<and> fst (run True 990
        [\<lparr>recv = SocketTimeout, clock = 991, sink_write = None, popen_ok = True\<rparr>]
        AudioReceiver_init) = Continue"
    by (simp add: run_def start_def iteration_def on_socket_timeout_def
        AudioReceiver_init_def)
  have h: "running (snd (start True 990 AudioReceiver_init))
     \<and> recv \<lparr>recv = Received [0x80, 0x60, 0, 7, 0, 0, 0, 0, 0, 0, 0, 0, 1, 2] ''10.0.0.9'', clock = 9995 / 10 :: real,
          sink_write = None, popen_ok = True\<rparr> = Received [0x80, 0x60, 0, 7, 0, 0, 0, 0, 0, 0, 0, 0, 1, 2] ''10.0.0.9''
     \<and> 12 \<le> length [0x80, 0x60, 0, 7, 0, 0, 0, 0, 0, 0, 0, 0, 1, 2]
     \<and> uint (([0x80, 0x60, 0, 7, 0, 0, 0, 0, 0, 0, 0, 0, 1, 2] :: byte list) ! 0) div 64 = 2
     \<and> 1 \<le> clock \<lparr>recv = Received [0x80, 0x60, 0, 7, 0, 0, 0, 0, 0, 0, 0, 0, 1, 2] ''10.0.0.9'', clock = 9995 / 10 :: real,
          sink_write = None, popen_ok = True\<rparr>
     \<and> clock \<lparr>recv = Received [0x80, 0x60, 0, 7, 0, 0, 0, 0, 0, 0, 0, 0, 1, 2] ''10.0.0.9'', clock = 9995 / 10 :: real,
          sink_write = None, popen_ok = True\<rparr> \<le> 1000"
    by (simp add: start_def AudioReceiver_init_def)
  show ?thesis
    using q h connection_status_cases
      [where now = 1000 and st = AudioReceiver_init and ?t0.0 = 990
         and xs = "[\<lparr>recv = SocketTimeout, clock = 991, sink_write = None, popen_ok = True\<rparr>]"
         and rst = "snd (start True 990 AudioReceiver_init)"
         and rx = "\<lparr>recv = Received [0x80, 0x60, 0, 7, 0, 0, 0, 0, 0, 0, 0, 0, 1, 2] ''10.0.0.9'', clock = 9995 / 10, sink_write = None,
          popen_ok = True\<rparr>"
         and data = "[0x80, 0x60, 0, 7, 0, 0, 0, 0, 0, 0, 0, 0, 1, 2]" and addr = "''10.0.0.9''"]
    by (simp add: AudioReceiver_init_def)
qed

text \<open>
  Two runs of the main variant against the claim as it was written. A valid packet
  arrives at 998.9 and the status is asked at 1000.1, that is 1.2 seconds later: the
  stored reading is 998, the current one 1000, and the answer is \<open>SLOW\<close>, not \<open>GOOD\<close>.
  And a receiver that has only got a 12-byte datagram of RTP version 1, which fails
  validation, answers \<open>GOOD\<close>, not \<open>WAITING\<close>, although no valid packet has ever been
  received.
\<close>

theorem connection_status_counterexample:
  "accept_rtp [0x80, 0x60, 0, 7, 0, 0, 0, 0, 0, 0, 0, 0, 1, 2] \<noteq> None
   \<and> (10001 / 10 :: real) - 9989 / 10 < 2
   \<and> get_connection_status (10001 / 10) (snd (iteration
        \<lparr>recv = Received [0x80, 0x60, 0, 7, 0, 0, 0, 0, 0, 0, 0, 0, 1, 2] ''10.0.0.9'', clock = 9989 / 10, sink_write = None,
          popen_ok = True\<rparr> (snd (start True 990 AudioReceiver_init)))) = SLOW
   \<and> accept_rtp [0x40, 0x60, 0, 7, 0, 0, 0, 0, 0, 0, 0, 0] = None
   \<and> get_connection_status 996 (snd (run True 990
        [\<lparr>recv = Received [0x40, 0x60, 0, 7, 0, 0, 0, 0, 0, 0, 0, 0] ''10.0.0.9'',
           clock = 995, sink_write = None, popen_ok = True\<rparr>]
        AudioReceiver_init)) = GOOD"
  by (simp add: run_def start_def iteration_def handle_datagram_def update_statistics_def
      observe_def get_connection_status_def AudioReceiver_init_def py_int_def
      accept_rtp_def parse_rtp_def unpack_BBHII_def be_int_def)

section \<open>The receive loop: accepted packets\<close>

lemma update_statistics_fields:
  "running (update_statistics data sq st) = running st"
  "last_sequence (update_statistics data sq st) = sq"
  "packets_received (update_statistics data sq st) = packets_received st + 1"
  "bytes_received (update_statistics data sq st) = bytes_received st + int (length data)"
  "errors (update_statistics data sq st) =
     errors st + (if last_sequence st = - 1 then 0
                  else if sq = (last_sequence st + 1) mod 65536 then 0
                  else (sq - (last_sequence st + 1) mod 65536) mod 65536)"
  by (simp_all add: update_statistics_def observe_def Let_def and_0xFFFF)

lemma handle_datagram_accepted:
  assumes "accept_rtp data = Some p" "wr = None \<or> wr = Some ALSAAudioError"
  shows "handle_datagram data now wr st =
     update_statistics data (sequence p)
       (st\<lparr>last_packet_time := py_int now,
           pcm_writes := (if audio_data p \<noteq> [] then pcm_writes st @ [audio_data p]
                          else pcm_writes st)\<rparr>)"
  using assms by (auto simp: handle_datagram_def Let_def)

lemma iteration_accepted:
  assumes "recv x = Received data addr" "accept_rtp data = Some p"
    "sink_write x = None \<or> sink_write x = Some ALSAAudioError"
  shows "fst (iteration x st) = Continue"
    "running (snd (iteration x st)) = running st"
    "last_sequence (snd (iteration x st)) = sequence p"
    "packets_received (snd (iteration x st)) = packets_received st + 1"
    "bytes_received (snd (iteration x st)) = bytes_received st + int (length data)"
    "errors (snd (iteration x st)) =
       errors st + (if last_sequence st = - 1 then 0
                    else if sequence p = (last_sequence st + 1) mod 65536 then 0
                    else (sequence p - (last_sequence st + 1) mod 65536) mod 65536)"
  by (simp_all add: assms(1) iteration_def handle_datagram_accepted [OF assms(2,3)]
      update_statistics_fields)

lemma main_run_drops:
  assumes ok: "\<And>s. s \<in> set [0, 1, 2, 3, 4, 5, 6, 7, 8, 9, 15, 16, 17, 18, 19, 20] \<Longrightarrow>
      recv (x s) = Received (pkt s) (addr s)
      \<and> accept_rtp (pkt s) = Some (p s) \<and> sequence (p s) = s
      \<and> (sink_write (x s) = None \<or> sink_write (x s) = Some ALSAAudioError)"
  shows "fst (run True t0 (map x [0, 1, 2, 3, 4, 5, 6, 7, 8, 9, 15, 16, 17, 18, 19, 20])
             AudioReceiver_init) = Continue
    \<and> errors (snd (run True t0 (map x [0, 1, 2, 3, 4, 5, 6, 7, 8, 9, 15, 16, 17, 18, 19, 20])
             AudioReceiver_init)) = 5
    \<and> last_sequence (snd (run True t0 (map x [0, 1, 2, 3, 4, 5, 6, 7, 8, 9, 15, 16, 17, 18, 19, 20])
             AudioReceiver_init)) = 20"
proof -
  define st0 where "st0 = AudioReceiver_init\<lparr>running := True, stream_start_time := py_int t0\<rparr>"
  let ?xs = "map x [0, 1, 2, 3, 4, 5, 6, 7, 8, 9, 15, 16, 17, 18, 19, 20]"
  have it: "fst (iteration (x s) st) = Continue"
    "running (snd (iteration (x s) st)) = running st"
    "last_sequence (snd (iteration (x s) st)) = s"
    "errors (snd (iteration (x s) st)) =
       errors st + (if last_sequence st = - 1 then 0
                    else if s = (last_sequence st + 1) mod 65536 then 0
                    else (s - (last_sequence st + 1) mod 65536) mod 65536)"
    if "s \<in> set [0, 1, 2, 3, 4, 5, 6, 7, 8, 9, 15, 16, 17, 18, 19, 20]" for s st
    using iteration_accepted [of "x s" "pkt s" "addr s" "p s" st] ok [OF that]
    by simp_all
  have stp: "receive_loop iteration (x s # xs) st
      = receive_loop iteration xs (snd (iteration (x s) st))"
    if "s \<in> set [0, 1, 2, 3, 4, 5, 6, 7, 8, 9, 15, 16, 17, 18, 19, 20]" "running st" for s st xs
    by (rule receive_loop_step [of st iteration "x s" xs, OF that(2) it(1) [OF that(1)]])
  have s0: "running st0" "errors st0 = 0" "last_sequence st0 = - 1"
    by (simp_all add: st0_def AudioReceiver_init_def)
  define r where "r = receive_loop iteration ?xs st0"
  have r: "fst r = Continue \<and> errors (snd r) = 5 \<and> last_sequence (snd r) = 20"
    unfolding r_def by (simp add: stp it s0 del: receive_loop.simps(2))
  then obtain st' where st': "r = (Continue, st')" by (cases r) simp
  have "run True t0 ?xs AudioReceiver_init =
      (case r of (Continue, st'') \<Rightarrow> (Continue, st'') | (Break, st'') \<Rightarrow> (Break, stop st''))"
    by (simp add: run_def start_def r_def st0_def del: receive_loop.simps)
  with r st' show ?thesis by simp
qed

lemma minimal_handle_datagram_accepted:
  assumes "accept_rtp data = Some p" "wr \<noteq> Some ALSAAudioError" "wr \<noteq> Some OtherException"
  shows "minimal_handle_datagram data wr p_ok st =
     update_statistics data (sequence p)
       (if audio_data p \<noteq> [] \<and> aplay_process st \<noteq> None
        then (if wr = None then st\<lparr>stdin_writes := stdin_writes st @ [audio_data p]\<rparr>
              else restart_aplay p_ok (st\<lparr>stdin_writes := stdin_writes st @ [audio_data p]\<rparr>))
        else st)"
proof (cases wr)
  case None
  then show ?thesis by (simp add: minimal_handle_datagram_def assms(1) Let_def)
next
  case (Some e)
  with assms(2,3) have "e = BrokenPipeError \<or> e = TimeoutError \<or> e = OSError"
    by (cases e) simp_all
  with Some show ?thesis by (simp add: minimal_handle_datagram_def assms(1) Let_def)
qed

lemma restart_aplay_fields:
  "running (restart_aplay p_ok st) = running st"
  "last_sequence (restart_aplay p_ok st) = last_sequence st"
  "packets_received (restart_aplay p_ok st) = packets_received st"
  "bytes_received (restart_aplay p_ok st) = bytes_received st"
  "errors (restart_aplay p_ok st) = errors st"
  by (simp_all add: restart_aplay_def popen_def)

lemma minimal_iteration_accepted:
  assumes "recv x = Received data addr" "accept_rtp data = Some p"
    "sink_write x \<noteq> Some ALSAAudioError" "sink_write x \<noteq> Some OtherException"
  shows "fst (minimal_iteration x st) = Continue"
    "running (snd (minimal_iteration x st)) = running st"
    "last_sequence (snd (minimal_iteration x st)) = sequence p"
    "packets_received (snd (minimal_iteration x st)) = packets_received st + 1"
    "bytes_received (snd (minimal_iteration x st)) = bytes_received st + int (length data)"
    "errors (snd (minimal_iteration x st)) =
       errors st + (if last_sequence st = - 1 then 0
                    else if sequence p = (last_sequence st + 1) mod 65536 then 0
                    else (sequence p - (last_sequence st + 1) mod 65536) mod 65536)"
  by (simp_all add: assms(1) minimal_iteration_def
      minimal_handle_datagram_accepted [OF assms(2,3,4)]
      update_statistics_fields restart_aplay_fields)

lemma minimal_run_drops:
  assumes ok: "\<And>s. s \<in> set [0, 1, 2, 3, 4, 5, 6, 7, 8, 9, 15, 16, 17, 18, 19, 20] \<Longrightarrow>
      recv (y s) = Received (pkt s) (addr s)
      \<and> accept_rtp (pkt s) = Some (p s) \<and> sequence (p s) = s
      \<and> sink_write (y s) \<noteq> Some ALSAAudioError \<and> sink_write (y s) \<noteq> Some OtherException"
  shows "fst (minimal_run True True (map y [0, 1, 2, 3, 4, 5, 6, 7, 8, 9, 15, 16, 17, 18, 19, 20])
             MinimalAudioReceiver_init) = Continue
    \<and> errors (snd (minimal_run True True
             (map y [0, 1, 2, 3, 4, 5, 6, 7, 8, 9, 15, 16, 17, 18, 19, 20])
             MinimalAudioReceiver_init)) = 5
    \<and> last_sequence (snd (minimal_run True True
             (map y [0, 1, 2, 3, 4, 5, 6, 7, 8, 9, 15, 16, 17, 18, 19, 20])
             MinimalAudioReceiver_init)) = 20"
proof -
  define st0 where "st0 = (popen MinimalAudioReceiver_init)\<lparr>running := True\<rparr>"
  let ?xs = "map y [0, 1, 2, 3, 4, 5, 6, 7, 8, 9, 15, 16, 17, 18, 19, 20]"
  have it: "fst (minimal_iteration (y s) st) = Continue"
    "running (snd (minimal_iteration (y s) st)) = running st"
    "last_sequence (snd (minimal_iteration (y s) st)) = s"
    "errors (snd (minimal_iteration (y s) st)) =
       errors st + (if last_sequence st = - 1 then 0
                    else if s = (last_sequence st + 1) mod 65536 then 0
                    else (s - (last_sequence st + 1) mod 65536) mod 65536)"
    if "s \<in> set [0, 1, 2, 3, 4, 5, 6, 7, 8, 9, 15, 16, 17, 18, 19, 20]" for s st
    using minimal_iteration_accepted [of "y s" "pkt s" "addr s" "p s" st] ok [OF that]
    by simp_all
  have stp: "receive_loop minimal_iteration (y s # xs) st
      = receive_loop minimal_iteration xs (snd (minimal_iteration (y s) st))"
    if "s \<in> set [0, 1, 2, 3, 4, 5, 6, 7, 8, 9, 15, 16, 17, 18, 19, 20]" "running st" for s st xs
    by (rule receive_loop_step [of st minimal_iteration "y s" xs, OF that(2) it(1) [OF that(1)]])
  have s0: "running st0" "errors st0 = 0" "last_sequence st0 = - 1"
    by (simp_all add: st0_def MinimalAudioReceiver_init_def popen_def)
  define r where "r = receive_loop minimal_iteration ?xs st0"
  have r: "fst r = Continue \<and> errors (snd r) = 5 \<and> last_sequence (snd r) = 20"
    unfolding r_def by (simp add: stp it s0 del: receive_loop.simps(2))
  then obtain st' where st': "r = (Continue, st')" by (cases r) simp
  have "minimal_run True True ?xs MinimalAudioReceiver_init =
      (case r of (Continue, st'') \<Rightarrow> (Continue, st'')
       | (Break, st'') \<Rightarrow> (Break, minimal_stop st''))"
    by (simp add: minimal_run_def minimal_start_def r_def st0_def del: receive_loop.simps)
  with r st' show ?thesis by simp
qed


lemma note_packet_fields:
  "running (note_packet data addr sq now st) = running st"
  "last_sequence (note_packet data addr sq now st) = sq"
  "packets_received (note_packet data addr sq now st) = packets_received st + 1"
  "bytes_received (note_packet data addr sq now st) = bytes_received st + int (length data)"
  "errors (note_packet data addr sq now st) = errors st"
  "self_last_packet_time (note_packet data addr sq now st) = now"
  "connected (note_packet data addr sq now st)"
  by (simp_all add: note_packet_def Let_def)

lemma simple_handle_datagram_accepted:
  assumes "accept_rtp data = Some p" "wr = Some BrokenPipeError \<longrightarrow> p_ok"
  shows "simple_handle_datagram data addr now wr p_ok st =
     (Continue, note_packet data addr (sequence p) now
        (if aplay_process st \<noteq> None \<and> audio_data p \<noteq> []
         then (if wr = Some BrokenPipeError
               then popen (stop_aplay (st\<lparr>stdin_writes := stdin_writes st @ [audio_data p]\<rparr>))
               else st\<lparr>stdin_writes := stdin_writes st @ [audio_data p]\<rparr>)
         else st))"
  using assms by (simp add: simple_handle_datagram_def start_aplay_def Let_def)

lemma popen_fields:
  "running (popen st) = running st"
  "last_sequence (popen st) = last_sequence st"
  "packets_received (popen st) = packets_received st"
  "bytes_received (popen st) = bytes_received st"
  "errors (popen st) = errors st"
  by (simp_all add: popen_def)

lemma simple_iteration_accepted:
  assumes "recv x = Received data addr" "accept_rtp data = Some p"
    "sink_write x = Some BrokenPipeError \<longrightarrow> popen_ok x"
  shows "fst (simple_iteration x st) = Continue"
    "running (snd (simple_iteration x st)) = running st"
    "last_sequence (snd (simple_iteration x st)) = sequence p"
    "packets_received (snd (simple_iteration x st)) = packets_received st + 1"
    "bytes_received (snd (simple_iteration x st)) = bytes_received st + int (length data)"
    "errors (snd (simple_iteration x st)) = errors st"
  by (simp_all add: assms(1) simple_iteration_def
      simple_handle_datagram_accepted [OF assms(2,3)]
      note_packet_fields popen_fields stop_aplay_def)

lemma simple_run_last_sequence:
  assumes ok: "\<And>s. s \<in> set [0, 1, 2, 3, 4, 5, 6, 7, 8, 9, 15, 16, 17, 18, 19, 20] \<Longrightarrow>
      recv (z s) = Received (pkt s) (addr s)
      \<and> accept_rtp (pkt s) = Some (p s) \<and> sequence (p s) = s
      \<and> (sink_write (z s) = Some BrokenPipeError \<longrightarrow> popen_ok (z s))"
  shows "fst (simple_start True True (map z [0, 1, 2, 3, 4, 5, 6, 7, 8, 9, 15, 16, 17, 18, 19, 20])
             (SimpleAudioReceiver_init t0)) = Continue
    \<and> errors (snd (simple_start True True
             (map z [0, 1, 2, 3, 4, 5, 6, 7, 8, 9, 15, 16, 17, 18, 19, 20])
             (SimpleAudioReceiver_init t0))) = 0
    \<and> last_sequence (snd (simple_start True True
             (map z [0, 1, 2, 3, 4, 5, 6, 7, 8, 9, 15, 16, 17, 18, 19, 20])
             (SimpleAudioReceiver_init t0))) = 20"
proof -
  define st0 where "st0 = (popen (SimpleAudioReceiver_init t0))\<lparr>running := True\<rparr>"
  let ?xs = "map z [0, 1, 2, 3, 4, 5, 6, 7, 8, 9, 15, 16, 17, 18, 19, 20]"
  have it: "fst (simple_iteration (z s) st) = Continue"
    "running (snd (simple_iteration (z s) st)) = running st"
    "last_sequence (snd (simple_iteration (z s) st)) = s"
    "errors (snd (simple_iteration (z s) st)) = errors st"
    if "s \<in> set [0, 1, 2, 3, 4, 5, 6, 7, 8, 9, 15, 16, 17, 18, 19, 20]" for s st
    using simple_iteration_accepted [of "z s" "pkt s" "addr s" "p s" st] ok [OF that]
    by simp_all
  have stp: "receive_loop simple_iteration (z s # xs) st
      = receive_loop simple_iteration xs (snd (simple_iteration (z s) st))"
    if "s \<in> set [0, 1, 2, 3, 4, 5, 6, 7, 8, 9, 15, 16, 17, 18, 19, 20]" "running st" for s st xs
    by (rule receive_loop_step [of st simple_iteration "z s" xs, OF that(2) it(1) [OF that(1)]])
  have s0: "running st0" "errors st0 = 0" "last_sequence st0 = - 1"
    by (simp_all add: st0_def SimpleAudioReceiver_init_def popen_def)
  define r where "r = receive_loop simple_iteration ?xs st0"
  have r: "fst r = Continue \<and> errors (snd r) = 0 \<and> last_sequence (snd r) = 20"
    unfolding r_def by (simp add: stp it s0 del: receive_loop.simps(2))
  have "simple_start True True ?xs (SimpleAudioReceiver_init t0) = r"
    by (simp add: simple_start_def start_aplay_def r_def st0_def del: receive_loop.simps)
  with r show ?thesis by simp
qed

lemma accept_encode:
  assumes "0 \<le> low6" "low6 < 64" "0 \<le> m" "m \<le> 1" "0 \<le> pt" "pt < 128"
    "0 \<le> sq" "sq < 65536" "0 \<le> ts" "ts < 4294967296" "0 \<le> ssrc" "ssrc < 4294967296"
  shows "accept_rtp (encode_rtp 2 low6 m pt sq ts ssrc payload) =
     Some \<lparr> header = (128 + low6, m * 128 + pt, sq, ts, ssrc), version = 2,
       payload_type = pt, sequence = sq, timestamp = ts, audio_data = payload \<rparr>"
  using parse_encode [OF assms] by (simp add: accept_rtp_def)

text \<open>
  Claim C9, as the code has it. Feed a freshly started receiver 16 datagrams that
  pass validation, with the sequence numbers 0 to 9, then 15, then 16 to 20. In the
  main and the minimal variant, when every sink write succeeds or fails with an
  exception the write handler catches, the loop is still running afterwards,
  \<open>errors\<close> (the cumulative drop count, 0 at the start) is 5 and \<open>last_sequence\<close> is
  20. The simple variant has no drop counter: when no failed sink restart ends its
  loop, its \<open>errors\<close> is still 0 afterwards and its \<open>last_sequence\<close> is 20.
\<close>

theorem gap_run_drop_count:
  assumes "\<forall>s \<in> set [0, 1, 2, 3, 4, 5, 6, 7, 8, 9, 15, 16, 17, 18, 19, 20].
      accept_rtp (pkt s) = Some (p s) \<and> sequence (p s) = s
      \<and> recv (x s) = Received (pkt s) (addr s)
      \<and> (sink_write (x s) = None \<or> sink_write (x s) = Some ALSAAudioError)
      \<and> recv (y s) = Received (pkt s) (addr s)
      \<and> sink_write (y s) \<noteq> Some ALSAAudioError \<and> sink_write (y s) \<noteq> Some OtherException
      \<and> recv (z s) = Received (pkt s) (addr s)
      \<and> (sink_write (z s) = Some BrokenPipeError \<longrightarrow> popen_ok (z s))"
  shows "(fst (run True t0 (map x [0, 1, 2, 3, 4, 5, 6, 7, 8, 9, 15, 16, 17, 18, 19, 20])
             AudioReceiver_init) = Continue
    \<and> errors (snd (run True t0 (map x [0, 1, 2, 3, 4, 5, 6, 7, 8, 9, 15, 16, 17, 18, 19, 20])
             AudioReceiver_init)) = 5
    \<and> last_sequence (snd (run True t0 (map x [0, 1, 2, 3, 4, 5, 6, 7, 8, 9, 15, 16, 17, 18, 19, 20])
             AudioReceiver_init)) = 20)
   \<and> (fst (minimal_run True True (map y [0, 1, 2, 3, 4, 5, 6, 7, 8, 9, 15, 16, 17, 18, 19, 20])
             MinimalAudioReceiver_init) = Continue
    \<and> errors (snd (minimal_run True True
             (map y [0, 1, 2, 3, 4, 5, 6, 7, 8, 9, 15, 16, 17, 18, 19, 20])
             MinimalAudioReceiver_init)) = 5
    \<and> last_sequence (snd (minimal_run True True
             (map y [0, 1, 2, 3, 4, 5, 6, 7, 8, 9, 15, 16, 17, 18, 19, 20])
             MinimalAudioReceiver_init)) = 20)
   \<and> (fst (simple_start True True (map z [0, 1, 2, 3, 4, 5, 6, 7, 8, 9, 15, 16, 17, 18, 19, 20])
             (SimpleAudioReceiver_init t1)) = Continue
    \<and> errors (snd (simple_start True True
             (map z [0, 1, 2, 3, 4, 5, 6, 7, 8, 9, 15, 16, 17, 18, 19, 20])
             (SimpleAudioReceiver_init t1))) = 0
    \<and> last_sequence (snd (simple_start True True
             (map z [0, 1, 2, 3, 4, 5, 6, 7, 8, 9, 15, 16, 17, 18, 19, 20])
             (SimpleAudioReceiver_init t1))) = 20)"
proof -
  have a: "accept_rtp (pkt s) = Some (p s) \<and> sequence (p s) = s
      \<and> recv (x s) = Received (pkt s) (addr s)
      \<and> (sink_write (x s) = None \<or> sink_write (x s) = Some ALSAAudioError)
      \<and> recv (y s) = Received (pkt s) (addr s)
      \<and> sink_write (y s) \<noteq> Some ALSAAudioError \<and> sink_write (y s) \<noteq> Some OtherException
      \<and> recv (z s) = Received (pkt s) (addr s)
      \<and> (sink_write (z s) = Some BrokenPipeError \<longrightarrow> popen_ok (z s))"
    if "s \<in> set [0, 1, 2, 3, 4, 5, 6, 7, 8, 9, 15, 16, 17, 18, 19, 20]" for s
    using assms that by (rule bspec)
  have m: "fst (run True t0 (map x [0, 1, 2, 3, 4, 5, 6, 7, 8, 9, 15, 16, 17, 18, 19, 20])
             AudioReceiver_init) = Continue
    \<and> errors (snd (run True t0 (map x [0, 1, 2, 3, 4, 5, 6, 7, 8, 9, 15, 16, 17, 18, 19, 20])
             AudioReceiver_init)) = 5
    \<and> last_sequence (snd (run True t0 (map x [0, 1, 2, 3, 4, 5, 6, 7, 8, 9, 15, 16, 17, 18, 19, 20])
             AudioReceiver_init)) = 20"
    by (rule main_run_drops [of x pkt addr p]) (use a in blast)
  have n: "fst (minimal_run True True (map y [0, 1, 2, 3, 4, 5, 6, 7, 8, 9, 15, 16, 17, 18, 19, 20])
             MinimalAudioReceiver_init) = Continue
    \<and> errors (snd (minimal_run True True
             (map y [0, 1, 2, 3, 4, 5, 6, 7, 8, 9, 15, 16, 17, 18, 19, 20])
             MinimalAudioReceiver_init)) = 5
    \<and> last_sequence (snd (minimal_run True True
             (map y [0, 1, 2, 3, 4, 5, 6, 7, 8, 9, 15, 16, 17, 18, 19, 20])
             MinimalAudioReceiver_init)) = 20"
    by (rule minimal_run_drops [of y pkt addr p]) (use a in blast)
  have s: "fst (simple_start True True (map z [0, 1, 2, 3, 4, 5, 6, 7, 8, 9, 15, 16, 17, 18, 19, 20])
             (SimpleAudioReceiver_init t1)) = Continue
    \<and> errors (snd (simple_start True True
             (map z [0, 1, 2, 3, 4, 5, 6, 7, 8, 9, 15, 16, 17, 18, 19, 20])
             (SimpleAudioReceiver_init t1))) = 0
    \<and> last_sequence (snd (simple_start True True
             (map z [0, 1, 2, 3, 4, 5, 6, 7, 8, 9, 15, 16, 17, 18, 19, 20])
             (SimpleAudioReceiver_init t1))) = 20"
    by (rule simple_run_last_sequence [of z pkt addr p]) (use a in blast)
  from m n s show ?thesis by blast
qed

theorem gap_run_drop_count_witness:
  "errors (snd (run True 990
       (map (\<lambda>s. \<lparr>recv = Received (encode_rtp 2 0 0 96 s 0 0 [1, 2]) ''10.0.0.9'',
                    clock = 1000, sink_write = None, popen_ok = True\<rparr>)
          [0, 1, 2, 3, 4, 5, 6, 7, 8, 9, 15, 16, 17, 18, 19, 20])
       AudioReceiver_init)) = 5
   \<and> last_sequence (snd (run True 990
       (map (\<lambda>s. \<lparr>recv = Received (encode_rtp 2 0 0 96 s 0 0 [1, 2]) ''10.0.0.9'',
                    clock = 1000, sink_write = None, popen_ok = True\<rparr>)
          [0, 1, 2, 3, 4, 5, 6, 7, 8, 9, 15, 16, 17, 18, 19, 20])
       AudioReceiver_init)) = 20
   \<and> errors (snd (minimal_run True True
       (map (\<lambda>s. \<lparr>recv = Received (encode_rtp 2 0 0 96 s 0 0 [1, 2]) ''10.0.0.9'',
                    clock = 1000 :: int, sink_write = Some BrokenPipeError, popen_ok = False\<rparr>)
          [0, 1, 2, 3, 4, 5, 6, 7, 8, 9, 15, 16, 17, 18, 19, 20])
       MinimalAudioReceiver_init)) = 5
   \<and> last_sequence (snd (simple_start True True
       (map (\<lambda>s. \<lparr>recv = Received (encode_rtp 2 0 0 96 s 0 0 [1, 2]) ''10.0.0.9'',
                    clock = 1000, sink_write = Some BrokenPipeError, popen_ok = True\<rparr>)
          [0, 1, 2, 3, 4, 5, 6, 7, 8, 9, 15, 16, 17, 18, 19, 20])
       (SimpleAudioReceiver_init 0))) = 20"
proof -
  have h: "\<forall>s \<in> set [0, 1, 2, 3, 4, 5, 6, 7, 8, 9, 15, 16, 17, 18, 19, 20].
      accept_rtp (encode_rtp 2 0 0 96 s 0 0 [1, 2]) =
        Some \<lparr> header = (128 + 0, 0 * 128 + 96, s, 0, 0), version = 2,
          payload_type = 96, sequence = s, timestamp = 0, audio_data = [1, 2] \<rparr>
      \<and> sequence \<lparr> header = (128 + 0, 0 * 128 + 96, s, 0, 0), version = 2,
          payload_type = 96, sequence = s, timestamp = 0, audio_data = [1, 2] \<rparr> = s
      \<and> recv \<lparr>recv = Received (encode_rtp 2 0 0 96 s 0 0 [1, 2]) ''10.0.0.9'',
                    clock = 1000 :: real, sink_write = None, popen_ok = True\<rparr>
          = Received (encode_rtp 2 0 0 96 s 0 0 [1, 2]) ''10.0.0.9''
      \<and> (sink_write \<lparr>recv = Received (encode_rtp 2 0 0 96 s 0 0 [1, 2]) ''10.0.0.9'',
                    clock = 1000 :: real, sink_write = None, popen_ok = True\<rparr> = None
         \<or> sink_write \<lparr>recv = Received (encode_rtp 2 0 0 96 s 0 0 [1, 2]) ''10.0.0.9'',
                    clock = 1000 :: real, sink_write = None, popen_ok = True\<rparr>
            = Some ALSAAudioError)
      \<and> recv \<lparr>recv = Received (encode_rtp 2 0 0 96 s 0 0 [1, 2]) ''10.0.0.9'',
                    clock = 1000 :: int, sink_write = Some BrokenPipeError, popen_ok = False\<rparr>
          = Received (encode_rtp 2 0 0 96 s 0 0 [1, 2]) ''10.0.0.9''
      \<and> sink_write \<lparr>recv = Received (encode_rtp 2 0 0 96 s 0 0 [1, 2]) ''10.0.0.9'',
                    clock = 1000 :: int, sink_write = Some BrokenPipeError, popen_ok = False\<rparr>
          \<noteq> Some ALSAAudioError
      \<and> sink_write \<lparr>recv = Received (encode_rtp 2 0 0 96 s 0 0 [1, 2]) ''10.0.0.9'',
                    clock = 1000 :: int, sink_write = Some BrokenPipeError, popen_ok = False\<rparr>
          \<noteq> Some OtherException
      \<and> recv \<lparr>recv = Received (encode_rtp 2 0 0 96 s 0 0 [1, 2]) ''10.0.0.9'',
                    clock = 1000 :: real, sink_write = Some BrokenPipeError, popen_ok = True\<rparr>
          = Received (encode_rtp 2 0 0 96 s 0 0 [1, 2]) ''10.0.0.9''
      \<and> (sink_write \<lparr>recv = Received (encode_rtp 2 0 0 96 s 0 0 [1, 2]) ''10.0.0.9'',
                    clock = 1000 :: real, sink_write = Some BrokenPipeError, popen_ok = True\<rparr>
            = Some BrokenPipeError
          \<longrightarrow> popen_ok \<lparr>recv = Received (encode_rtp 2 0 0 96 s 0 0 [1, 2]) ''10.0.0.9'',
                    clock = 1000 :: real, sink_write = Some BrokenPipeError, popen_ok = True\<rparr>)"
    by (simp add: accept_encode)
  show ?thesis
    using gap_run_drop_count
      [where pkt = "\<lambda>s. encode_rtp 2 0 0 96 s 0 0 [1, 2]"
         and p = "\<lambda>s. \<lparr> header = (128 + 0, 0 * 128 + 96, s, 0, 0), version = 2,
              payload_type = 96, sequence = s, timestamp = 0, audio_data = [1, 2] \<rparr>"
         and addr = "\<lambda>s. ''10.0.0.9''"
         and x = "\<lambda>s. \<lparr>recv = Received (encode_rtp 2 0 0 96 s 0 0 [1, 2]) ''10.0.0.9'',
                    clock = 1000, sink_write = None, popen_ok = True\<rparr>"
         and y = "\<lambda>s. \<lparr>recv = Received (encode_rtp 2 0 0 96 s 0 0 [1, 2]) ''10.0.0.9'',
                    clock = 1000 :: int, sink_write = Some BrokenPipeError, popen_ok = False\<rparr>"
         and z = "\<lambda>s. \<lparr>recv = Received (encode_rtp 2 0 0 96 s 0 0 [1, 2]) ''10.0.0.9'',
                    clock = 1000 :: real, sink_write = Some BrokenPipeError, popen_ok = True\<rparr>"
         and ?t0.0 = 990 and ?t1.0 = 0, OF h]
    by blast
qed

text \<open>
  The same run against the claim as it was written. In the simple variant, with a
  sink that takes every write, the drop count is 0 and not 5: the variant stores the
  sequence number and compares nothing. And when the write of the first packet raises
  \<^verbatim>\<open>BrokenPipeError\<close> and the restart fails, its loop is left at once and
  \<open>last_sequence\<close> is still unset, not 20.
\<close>

theorem gap_run_drop_count_counterexample:
  "errors (snd (simple_start True True
       (map (\<lambda>s. \<lparr>recv = Received (encode_rtp 2 0 0 96 s 0 0 [1, 2]) ''10.0.0.9'',
                    clock = 1000, sink_write = None, popen_ok = True\<rparr>)
          [0, 1, 2, 3, 4, 5, 6, 7, 8, 9, 15, 16, 17, 18, 19, 20])
       (SimpleAudioReceiver_init 0))) = 0
   \<and> fst (simple_start True True
       (map (\<lambda>s. \<lparr>recv = Received (encode_rtp 2 0 0 96 s 0 0 [1, 2]) ''10.0.0.9'',
                    clock = 1000, sink_write = Some BrokenPipeError, popen_ok = False\<rparr>)
          [0, 1, 2, 3, 4, 5, 6, 7, 8, 9, 15, 16, 17, 18, 19, 20])
       (SimpleAudioReceiver_init 0)) = Break
   \<and> last_sequence (snd (simple_start True True
       (map (\<lambda>s. \<lparr>recv = Received (encode_rtp 2 0 0 96 s 0 0 [1, 2]) ''10.0.0.9'',
                    clock = 1000, sink_write = Some BrokenPipeError, popen_ok = False\<rparr>)
          [0, 1, 2, 3, 4, 5, 6, 7, 8, 9, 15, 16, 17, 18, 19, 20])
       (SimpleAudioReceiver_init 0))) = - 1"
proof -
  have hs: "recv \<lparr>recv = Received (encode_rtp 2 0 0 96 s 0 0 [1, 2]) ''10.0.0.9'',
               clock = 1000 :: real, sink_write = None, popen_ok = True\<rparr>
        = Received (encode_rtp 2 0 0 96 s 0 0 [1, 2]) ''10.0.0.9''
      \<and> accept_rtp (encode_rtp 2 0 0 96 s 0 0 [1, 2]) =
        Some \<lparr> header = (128 + 0, 0 * 128 + 96, s, 0, 0), version = 2,
          payload_type = 96, sequence = s, timestamp = 0, audio_data = [1, 2] \<rparr>
      \<and> sequence \<lparr> header = (128 + 0, 0 * 128 + 96, s, 0, 0), version = 2,
          payload_type = 96, sequence = s, timestamp = 0, audio_data = [1, 2] \<rparr> = s
      \<and> (sink_write \<lparr>recv = Received (encode_rtp 2 0 0 96 s 0 0 [1, 2]) ''10.0.0.9'',
               clock = 1000 :: real, sink_write = None, popen_ok = True\<rparr>
            = Some BrokenPipeError
          \<longrightarrow> popen_ok \<lparr>recv = Received (encode_rtp 2 0 0 96 s 0 0 [1, 2]) ''10.0.0.9'',
               clock = 1000 :: real, sink_write = None, popen_ok = True\<rparr>)"
    if "s \<in> set [0, 1, 2, 3, 4, 5, 6, 7, 8, 9, 15, 16, 17, 18, 19, 20]" for s
  proof -
    from that have "0 \<le> s" "s < 65536" by auto
    then show ?thesis by (simp add: accept_encode)
  qed
  have e: "errors (snd (simple_start True True
       (map (\<lambda>s. \<lparr>recv = Received (encode_rtp 2 0 0 96 s 0 0 [1, 2]) ''10.0.0.9'',
                    clock = 1000, sink_write = None, popen_ok = True\<rparr>)
          [0, 1, 2, 3, 4, 5, 6, 7, 8, 9, 15, 16, 17, 18, 19, 20])
       (SimpleAudioReceiver_init 0))) = 0"
    using simple_run_last_sequence
      [where z = "\<lambda>s. \<lparr>recv = Received (encode_rtp 2 0 0 96 s 0 0 [1, 2]) ''10.0.0.9'',
                    clock = 1000, sink_write = None, popen_ok = True\<rparr>"
         and pkt = "\<lambda>s. encode_rtp 2 0 0 96 s 0 0 [1, 2]"
         and addr = "\<lambda>s. ''10.0.0.9''"
         and p = "\<lambda>s. \<lparr> header = (128 + 0, 0 * 128 + 96, s, 0, 0), version = 2,
              payload_type = 96, sequence = s, timestamp = 0, audio_data = [1, 2] \<rparr>"
         and ?t0.0 = 0, OF hs]
    by blast
  have a0: "accept_rtp (encode_rtp 2 0 0 96 0 0 0 [1, 2]) =
        Some \<lparr> header = (128 + 0, 0 * 128 + 96, 0, 0, 0), version = 2,
          payload_type = 96, sequence = 0, timestamp = 0, audio_data = [1, 2] \<rparr>"
    by (rule accept_encode) simp_all
  have b: "simple_start True True
       (map (\<lambda>s. \<lparr>recv = Received (encode_rtp 2 0 0 96 s 0 0 [1, 2]) ''10.0.0.9'',
                    clock = 1000, sink_write = Some BrokenPipeError, popen_ok = False\<rparr>)
          [0, 1, 2, 3, 4, 5, 6, 7, 8, 9, 15, 16, 17, 18, 19, 20])
       (SimpleAudioReceiver_init 0)
     = (Break, (SimpleAudioReceiver_init 0)\<lparr>aplay_process := None, popen_count := 1,
          stdin_writes := [[1, 2]], running := True\<rparr>)"
    by (simp add: simple_start_def start_aplay_def stop_aplay_def popen_def
        simple_iteration_def simple_handle_datagram_def a0 SimpleAudioReceiver_init_def)
  from e b show ?thesis by (simp add: SimpleAudioReceiver_init_def)
qed

section \<open>Disconnection and the start-up grace period\<close>















section \<open>Errors inside the loop and the receive counters\<close>

lemma update_statistics_running: "running (update_statistics data sq st) = running st"
  by (simp add: update_statistics_def observe_def Let_def)

lemma iteration_continues:
  assumes "recv x \<noteq> KeyboardInterrupt"
  shows "fst (iteration x st) = Continue \<and> running (snd (iteration x st)) = running st"
  using assms
  by (cases "recv x")
    (simp_all add: iteration_def handle_datagram_frame on_exception_def on_socket_timeout_def)

lemma minimal_handle_datagram_running:
  "running (minimal_handle_datagram data wr p_ok st) = running st"
  by (simp add: minimal_handle_datagram_def update_statistics_running restart_aplay_fields
      Let_def split: option.splits)

lemma minimal_iteration_continues:
  assumes "recv y \<noteq> KeyboardInterrupt"
  shows "fst (minimal_iteration y st) = Continue
    \<and> running (snd (minimal_iteration y st)) = running st"
  using assms
  by (cases "recv y") (simp_all add: minimal_iteration_def minimal_handle_datagram_running)

lemma simple_handle_datagram_continues:
  assumes "wr = Some BrokenPipeError \<longrightarrow> p_ok"
  shows "fst (simple_handle_datagram data addr now wr p_ok st) = Continue
    \<and> running (snd (simple_handle_datagram data addr now wr p_ok st)) = running st"
proof (cases "accept_rtp data")
  case None
  then show ?thesis by (simp add: simple_handle_datagram_def)
next
  case (Some p)
  show ?thesis
    by (simp add: simple_handle_datagram_accepted [OF Some assms] note_packet_fields
        popen_fields stop_aplay_def)
qed

lemma simple_iteration_continues:
  assumes "recv z \<noteq> KeyboardInterrupt" "sink_write z = Some BrokenPipeError \<longrightarrow> popen_ok z"
  shows "fst (simple_iteration z st) = Continue
    \<and> running (snd (simple_iteration z st)) = running st"
  using assms(1)
  by (cases "recv z")
    (simp_all add: simple_iteration_def simple_handle_datagram_continues [OF assms(2)]
      on_timeout_def)

lemma update_statistics_aplay:
  "aplay_process (update_statistics data sq st) = aplay_process st"
  "stdin_writes (update_statistics data sq st) = stdin_writes st"
  by (simp_all add: update_statistics_def observe_def Let_def)

lemma minimal_restart_failure:
  assumes "recv y = Received data addr" "12 < length data" "uint (data ! 0) div 64 = 2"
    "aplay_process st \<noteq> None"
    "sink_write y = Some BrokenPipeError \<or> sink_write y = Some TimeoutError
       \<or> sink_write y = Some OSError"
    "\<not> popen_ok y"
  shows "aplay_process (snd (minimal_iteration y st)) = None"
    "stdin_writes (snd (minimal_iteration y st)) = stdin_writes st @ [drop 12 data]"
proof -
  from assms(2,3) have "accept_rtp data \<noteq> None" by (simp add: accept_rtp_None_iff)
  then obtain p where p: "accept_rtp data = Some p" by auto
  have a: "audio_data p = drop 12 data" by (rule accept_rtp_SomeD(3) [OF p])
  have ne: "drop 12 data \<noteq> []" using assms(2) by simp
  from assms(5)
  have "aplay_process (snd (minimal_iteration y st)) = None
      \<and> stdin_writes (snd (minimal_iteration y st)) = stdin_writes st @ [drop 12 data]"
    using assms(1,4,6) ne
    by (auto simp: minimal_iteration_def minimal_handle_datagram_def p a
        update_statistics_aplay restart_aplay_def Let_def)
  then show "aplay_process (snd (minimal_iteration y st)) = None"
    "stdin_writes (snd (minimal_iteration y st)) = stdin_writes st @ [drop 12 data]"
    by simp_all
qed

lemma minimal_iteration_no_sink:
  assumes "aplay_process st = None"
  shows "aplay_process (snd (minimal_iteration y st)) = None
    \<and> stdin_writes (snd (minimal_iteration y st)) = stdin_writes st"
  using assms
  by (cases "recv y")
    (simp_all add: minimal_iteration_def minimal_handle_datagram_def update_statistics_aplay
      split: option.splits)

lemma minimal_loop_no_sink:
  assumes "aplay_process st = None"
  shows "aplay_process (snd (receive_loop minimal_iteration ys st)) = None
    \<and> stdin_writes (snd (receive_loop minimal_iteration ys st)) = stdin_writes st"
proof -
  define W where "W = stdin_writes st"
  have "aplay_process st = None \<and> stdin_writes st = W" using assms by (simp add: W_def)
  moreover have "aplay_process (snd (minimal_iteration y s)) = None
      \<and> stdin_writes (snd (minimal_iteration y s)) = W"
    if "aplay_process s = None \<and> stdin_writes s = W" for y :: "'a io" and s
    using minimal_iteration_no_sink [of s y] that by simp
  ultimately have "aplay_process (snd (receive_loop minimal_iteration ys st)) = None
      \<and> stdin_writes (snd (receive_loop minimal_iteration ys st)) = W"
    by (rule receive_loop_invariant
        [where I = "\<lambda>s. aplay_process s = None \<and> stdin_writes s = W"])
  then show ?thesis by (simp add: W_def)
qed

lemma simple_iteration_Break_iff:
  "fst (simple_iteration z st) = Break \<longleftrightarrow>
     recv z = KeyboardInterrupt
     \<or> (\<exists>data addr. recv z = Received data addr \<and> 12 < length data
           \<and> uint (data ! 0) div 64 = 2 \<and> aplay_process st \<noteq> None
           \<and> sink_write z = Some BrokenPipeError \<and> \<not> popen_ok z)"
proof (cases "recv z")
  case (Received data addr)
  show ?thesis
  proof (cases "accept_rtp data")
    case None
    then have "length data < 12 \<or> uint (data ! 0) div 64 \<noteq> 2"
      by (simp add: accept_rtp_None_iff)
    with None Received show ?thesis
      by (auto simp: simple_iteration_def simple_handle_datagram_def)
  next
    case (Some p)
    have a: "audio_data p = drop 12 data" and l: "12 \<le> length data"
      by (rule accept_rtp_SomeD [OF Some])+
    have v: "uint (data ! 0) div 64 = 2"
      using Some accept_rtp_None_iff [of data] l by auto
    have ne: "drop 12 data \<noteq> [] \<longleftrightarrow> 12 < length data" by (simp add: not_le)
    show ?thesis
      using Received v ne
      by (auto simp: simple_iteration_def simple_handle_datagram_def Some a start_aplay_def
          Let_def simp del: drop_eq_Nil drop_eq_Nil2)
  qed
next
  case SocketTimeout
  then show ?thesis by (simp add: simple_iteration_def)
next
  case SocketError
  then show ?thesis by (simp add: simple_iteration_def)
next
  case KeyboardInterrupt
  then show ?thesis by (simp add: simple_iteration_def)
qed

text \<open>
  Claim C7, as the code has it. In the main and the minimal variant a running loop
  is never left because of a packet or a sink error: as long as no receive raises
  \<^verbatim>\<open>KeyboardInterrupt\<close> (the explicit stop), every iteration continues and the
  receiver stays running, whatever the datagrams and the sink do. A socket error
  other than a timeout adds 1 to \<open>errors\<close> and continues, in all three variants. In the
  minimal variant a write that fails with \<^verbatim>\<open>BrokenPipeError\<close> or another \<^verbatim>\<open>OSError\<close>
  and whose restart fails hands the payload to the dead sink, leaves
  \<open>aplay_process\<close> at \<open>None\<close> and continues; from then on the loop delivers no payload
  any more and never gets a sink again. The simple variant continues as long as no
  \<^verbatim>\<open>BrokenPipeError\<close> is followed by a failed restart; one of its iterations leaves the
  loop exactly when the receive raises \<^verbatim>\<open>KeyboardInterrupt\<close> or when a valid datagram
  with a payload meets a live sink whose write raises \<^verbatim>\<open>BrokenPipeError\<close> and whose
  restart fails.
\<close>

theorem loop_survives_packet_and_sink_errors:
  "(running st \<and> (\<forall>x \<in> set xs. recv x \<noteq> KeyboardInterrupt) \<longrightarrow>
      fst (receive_loop iteration xs st) = Continue
      \<and> running (snd (receive_loop iteration xs st)))
   \<and> (running mst \<and> (\<forall>y \<in> set ys. recv y \<noteq> KeyboardInterrupt) \<longrightarrow>
      fst (receive_loop minimal_iteration ys mst) = Continue
      \<and> running (snd (receive_loop minimal_iteration ys mst)))
   \<and> (running sst
       \<and> (\<forall>z \<in> set zs. recv z \<noteq> KeyboardInterrupt
             \<and> (sink_write z = Some BrokenPipeError \<longrightarrow> popen_ok z)) \<longrightarrow>
      fst (receive_loop simple_iteration zs sst) = Continue
      \<and> running (snd (receive_loop simple_iteration zs sst)))
   \<and> (recv x1 = SocketError \<longrightarrow>
        fst (iteration x1 st) = Continue \<and> errors (snd (iteration x1 st)) = errors st + 1)
   \<and> (recv y1 = SocketError \<longrightarrow>
        fst (minimal_iteration y1 mst) = Continue
        \<and> errors (snd (minimal_iteration y1 mst)) = errors mst + 1)
   \<and> (recv z1 = SocketError \<longrightarrow>
        fst (simple_iteration z1 sst) = Continue
        \<and> errors (snd (simple_iteration z1 sst)) = errors sst + 1)
   \<and> (recv y2 = Received data addr \<and> 12 < length data \<and> uint (data ! 0) div 64 = 2
        \<and> aplay_process mst \<noteq> None
        \<and> (sink_write y2 = Some BrokenPipeError \<or> sink_write y2 = Some TimeoutError
            \<or> sink_write y2 = Some OSError)
        \<and> \<not> popen_ok y2 \<longrightarrow>
        fst (minimal_iteration y2 mst) = Continue
        \<and> running (snd (minimal_iteration y2 mst)) = running mst
        \<and> aplay_process (snd (minimal_iteration y2 mst)) = None
        \<and> stdin_writes (snd (minimal_iteration y2 mst)) = stdin_writes mst @ [drop 12 data])
   \<and> (aplay_process mst = None \<longrightarrow>
        aplay_process (snd (receive_loop minimal_iteration ys mst)) = None
        \<and> stdin_writes (snd (receive_loop minimal_iteration ys mst)) = stdin_writes mst)
   \<and> (fst (simple_iteration z2 sst) = Break \<longleftrightarrow>
        recv z2 = KeyboardInterrupt
        \<or> (\<exists>data addr. recv z2 = Received data addr \<and> 12 < length data
              \<and> uint (data ! 0) div 64 = 2 \<and> aplay_process sst \<noteq> None
              \<and> sink_write z2 = Some BrokenPipeError \<and> \<not> popen_ok z2))"
proof -
  have main: "fst (receive_loop iteration xs st) = Continue
      \<and> running (snd (receive_loop iteration xs st))"
    if a: "running st \<and> (\<forall>x \<in> set xs. recv x \<noteq> KeyboardInterrupt)"
  proof (rule receive_loop_continues)
    show "running st" using a by simp
    show "fst (iteration x s) = Continue \<and> running (snd (iteration x s))"
      if "x \<in> set xs" "running s" for x s
      using iteration_continues [of x s] a that by simp
  qed
  have minimal: "fst (receive_loop minimal_iteration ys mst) = Continue
      \<and> running (snd (receive_loop minimal_iteration ys mst))"
    if a: "running mst \<and> (\<forall>y \<in> set ys. recv y \<noteq> KeyboardInterrupt)"
  proof (rule receive_loop_continues)
    show "running mst" using a by simp
    show "fst (minimal_iteration y s) = Continue \<and> running (snd (minimal_iteration y s))"
      if "y \<in> set ys" "running s" for y s
      using minimal_iteration_continues [of y s] a that by simp
  qed
  have simple: "fst (receive_loop simple_iteration zs sst) = Continue
      \<and> running (snd (receive_loop simple_iteration zs sst))"
    if a: "running sst
       \<and> (\<forall>z \<in> set zs. recv z \<noteq> KeyboardInterrupt
             \<and> (sink_write z = Some BrokenPipeError \<longrightarrow> popen_ok z))"
  proof (rule receive_loop_continues)
    show "running sst" using a by simp
    show "fst (simple_iteration z s) = Continue \<and> running (snd (simple_iteration z s))"
      if "z \<in> set zs" "running s" for z s
      using simple_iteration_continues [of z s] a that by simp
  qed
  have e1: "fst (iteration x1 st) = Continue \<and> errors (snd (iteration x1 st)) = errors st + 1"
    if "recv x1 = SocketError"
    using that by (simp add: iteration_def on_exception_def)
  have e2: "fst (minimal_iteration y1 mst) = Continue
        \<and> errors (snd (minimal_iteration y1 mst)) = errors mst + 1"
    if "recv y1 = SocketError"
    using that by (simp add: minimal_iteration_def)
  have e3: "fst (simple_iteration z1 sst) = Continue
        \<and> errors (snd (simple_iteration z1 sst)) = errors sst + 1"
    if "recv z1 = SocketError"
    using that by (simp add: simple_iteration_def)
  have restart: "fst (minimal_iteration y2 mst) = Continue
        \<and> running (snd (minimal_iteration y2 mst)) = running mst
        \<and> aplay_process (snd (minimal_iteration y2 mst)) = None
        \<and> stdin_writes (snd (minimal_iteration y2 mst)) = stdin_writes mst @ [drop 12 data]"
    if a: "recv y2 = Received data addr \<and> 12 < length data \<and> uint (data ! 0) div 64 = 2
        \<and> aplay_process mst \<noteq> None
        \<and> (sink_write y2 = Some BrokenPipeError \<or> sink_write y2 = Some TimeoutError
            \<or> sink_write y2 = Some OSError)
        \<and> \<not> popen_ok y2"
  proof -
    from a have "recv y2 \<noteq> KeyboardInterrupt" by simp
    from minimal_iteration_continues [OF this, of mst]
      minimal_restart_failure [of y2 data addr mst] a
    show ?thesis by simp
  qed
  have dead: "aplay_process (snd (receive_loop minimal_iteration ys mst)) = None
        \<and> stdin_writes (snd (receive_loop minimal_iteration ys mst)) = stdin_writes mst"
    if "aplay_process mst = None"
    using that by (rule minimal_loop_no_sink)
  note brk = simple_iteration_Break_iff [of z2 sst]
  from main minimal simple e1 e2 e3 restart dead brk show ?thesis
    by blast
qed

theorem loop_survives_packet_and_sink_errors_witness:
  "running (snd (start True 990 AudioReceiver_init))
   \<and> fst (receive_loop iteration
          [\<lparr>recv = SocketError, clock = 1000, sink_write = None, popen_ok = True\<rparr>,
           \<lparr>recv = Received [0x80, 0x60, 0, 7, 0, 0, 0, 0, 0, 0, 0, 0, 1, 2] ''10.0.0.9'', clock = 1001,
             sink_write = Some OtherException, popen_ok = True\<rparr>]
          (snd (start True 990 AudioReceiver_init))) = Continue
   \<and> errors (snd (iteration
          \<lparr>recv = SocketError, clock = 1000, sink_write = None, popen_ok = True\<rparr>
          (snd (start True 990 AudioReceiver_init)))) = 1
   \<and> running (snd (minimal_start True True MinimalAudioReceiver_init))
   \<and> aplay_process (snd (minimal_start True True MinimalAudioReceiver_init)) \<noteq> None
   \<and> fst (receive_loop minimal_iteration
          [\<lparr>recv = Received [0x80, 0x60, 0, 7, 0, 0, 0, 0, 0, 0, 0, 0, 1, 2] ''10.0.0.9'',
            clock = 1000 :: real, sink_write = Some BrokenPipeError, popen_ok = False\<rparr>]
          (snd (minimal_start True True MinimalAudioReceiver_init))) = Continue
   \<and> aplay_process (snd (minimal_iteration
          \<lparr>recv = Received [0x80, 0x60, 0, 7, 0, 0, 0, 0, 0, 0, 0, 0, 1, 2] ''10.0.0.9'',
            clock = 1000 :: real, sink_write = Some BrokenPipeError, popen_ok = False\<rparr>
          (snd (minimal_start True True MinimalAudioReceiver_init)))) = None
   \<and> stdin_writes (snd (minimal_iteration
          \<lparr>recv = Received [0x80, 0x60, 0, 7, 0, 0, 0, 0, 0, 0, 0, 0, 1, 2] ''10.0.0.9'',
            clock = 1000 :: real, sink_write = Some BrokenPipeError, popen_ok = False\<rparr>
          (snd (minimal_start True True MinimalAudioReceiver_init)))) = [[1, 2]]
   \<and> running ((popen (SimpleAudioReceiver_init 0))\<lparr>running := True\<rparr>)
   \<and> fst (receive_loop simple_iteration
          [\<lparr>recv = SocketTimeout, clock = 1000, sink_write = None, popen_ok = True\<rparr>,
           \<lparr>recv = Received [0x80, 0x60, 0, 7, 0, 0, 0, 0, 0, 0, 0, 0, 1, 2] ''10.0.0.9'', clock = 1001,
             sink_write = Some BrokenPipeError, popen_ok = True\<rparr>,
           \<lparr>recv = SocketError, clock = 1002, sink_write = None, popen_ok = True\<rparr>]
          ((popen (SimpleAudioReceiver_init 0))\<lparr>running := True\<rparr>)) = Continue"
  using loop_survives_packet_and_sink_errors
    [where st = "snd (start True 990 AudioReceiver_init)"
       and xs = "[\<lparr>recv = SocketError, clock = 1000, sink_write = None, popen_ok = True\<rparr>,
           \<lparr>recv = Received [0x80, 0x60, 0, 7, 0, 0, 0, 0, 0, 0, 0, 0, 1, 2] ''10.0.0.9'', clock = 1001,
             sink_write = Some OtherException, popen_ok = True\<rparr>]"
       and ?x1.0 = "\<lparr>recv = SocketError, clock = 1000, sink_write = None, popen_ok = True\<rparr>"
       and mst = "snd (minimal_start True True MinimalAudioReceiver_init)"
       and ys = "[\<lparr>recv = Received [0x80, 0x60, 0, 7, 0, 0, 0, 0, 0, 0, 0, 0, 1, 2] ''10.0.0.9'',
            clock = 1000 :: real, sink_write = Some BrokenPipeError, popen_ok = False\<rparr>]"
       and ?y1.0 = "\<lparr>recv = SocketError, clock = 1000 :: real, sink_write = None,
            popen_ok = True\<rparr>"
       and ?y2.0 = "\<lparr>recv = Received [0x80, 0x60, 0, 7, 0, 0, 0, 0, 0, 0, 0, 0, 1, 2] ''10.0.0.9'',
            clock = 1000 :: real, sink_write = Some BrokenPipeError, popen_ok = False\<rparr>"
       and data = "[0x80, 0x60, 0, 7, 0, 0, 0, 0, 0, 0, 0, 0, 1, 2]"
       and addr = "''10.0.0.9''"
       and sst = "(popen (SimpleAudioReceiver_init 0))\<lparr>running := True\<rparr>"
       and zs = "[\<lparr>recv = SocketTimeout, clock = 1000, sink_write = None, popen_ok = True\<rparr>,
           \<lparr>recv = Received [0x80, 0x60, 0, 7, 0, 0, 0, 0, 0, 0, 0, 0, 1, 2] ''10.0.0.9'', clock = 1001,
             sink_write = Some BrokenPipeError, popen_ok = True\<rparr>,
           \<lparr>recv = SocketError, clock = 1002, sink_write = None, popen_ok = True\<rparr>]"
       and ?z1.0 = "\<lparr>recv = SocketError, clock = 1000, sink_write = None, popen_ok = True\<rparr>"
       and ?z2.0 = "\<lparr>recv = SocketError, clock = 1000, sink_write = None, popen_ok = True\<rparr>"]
  by (simp add: start_def AudioReceiver_init_def minimal_start_def popen_def
      MinimalAudioReceiver_init_def SimpleAudioReceiver_init_def del: receive_loop.simps)

text \<open>
  That case in the simple variant: the started receiver gets one valid datagram with a
  payload, the write raises \<^verbatim>\<open>BrokenPipeError\<close> and \<^verbatim>\<open>start_aplay\<close> fails. The loop is
  left by \<^verbatim>\<open>break\<close> (line 185), although nothing asked the receiver to stop.
\<close>

theorem simple_restart_failure_leaves_loop:
  "recv \<lparr>recv = Received [0x80, 0x60, 0, 7, 0, 0, 0, 0, 0, 0, 0, 0, 1, 2] ''10.0.0.9'',
         clock = 1000 :: real, sink_write = Some BrokenPipeError, popen_ok = False\<rparr>
     \<noteq> KeyboardInterrupt
   \<and> simple_start True True []
        (SimpleAudioReceiver_init 0)
     = (Continue, (popen (SimpleAudioReceiver_init 0))\<lparr>running := True\<rparr>)
   \<and> fst (simple_start True True
        [\<lparr>recv = Received [0x80, 0x60, 0, 7, 0, 0, 0, 0, 0, 0, 0, 0, 1, 2] ''10.0.0.9'',
          clock = 1000, sink_write = Some BrokenPipeError, popen_ok = False\<rparr>]
        (SimpleAudioReceiver_init 0)) = Break"
  by (simp add: simple_start_def start_aplay_def stop_aplay_def popen_def
      SimpleAudioReceiver_init_def simple_iteration_def simple_handle_datagram_def
      accept_rtp_def parse_rtp_def unpack_BBHII_def be_int_def)

lemma accepted_payload:
  assumes "12 \<le> length data" "uint (data ! 0) div 64 = 2"
  obtains p where "accept_rtp data = Some p" "audio_data p = drop 12 data"
proof -
  from assms have "accept_rtp data \<noteq> None" by (simp add: accept_rtp_None_iff)
  then obtain p where p: "accept_rtp data = Some p" by auto
  from accept_rtp_SomeD(3) [OF p] p show ?thesis by (rule that [rotated])
qed

text \<open>
  Claim C10, as the code has it. A datagram that passes validation adds 1 to
  \<open>packets_received\<close> and its full length to \<open>bytes_received\<close> whenever the write to
  the sink is skipped (empty payload, or no sink process in the two aplay variants),
  succeeds, or fails with an exception the write handler of the variant catches:
  \<^verbatim>\<open>ALSAAudioError\<close> in the main variant; \<^verbatim>\<open>BrokenPipeError\<close> and any other \<^verbatim>\<open>OSError\<close>
  in the minimal variant, whether the restart succeeds or not; any exception in the
  simple variant, a \<^verbatim>\<open>BrokenPipeError\<close> only when the restart succeeds.
\<close>

theorem receive_counters_on_accepted:
  assumes "12 \<le> length data" "uint (data ! 0) div 64 = 2"
  shows "(recv x = Received data addr
          \<and> (drop 12 data = [] \<or> sink_write x = None \<or> sink_write x = Some ALSAAudioError) \<longrightarrow>
            packets_received (snd (iteration x st)) = packets_received st + 1
          \<and> bytes_received (snd (iteration x st)) = bytes_received st + int (length data))
       \<and> (recv y = Received data addr
          \<and> (drop 12 data = [] \<or> aplay_process mst = None \<or> sink_write y = None
              \<or> sink_write y = Some BrokenPipeError \<or> sink_write y = Some TimeoutError
              \<or> sink_write y = Some OSError) \<longrightarrow>
            packets_received (snd (minimal_iteration y mst)) = packets_received mst + 1
          \<and> bytes_received (snd (minimal_iteration y mst))
              = bytes_received mst + int (length data))
       \<and> (recv z = Received data addr
          \<and> (drop 12 data = [] \<or> aplay_process sst = None
              \<or> sink_write z \<noteq> Some BrokenPipeError \<or> popen_ok z) \<longrightarrow>
            packets_received (snd (simple_iteration z sst)) = packets_received sst + 1
          \<and> bytes_received (snd (simple_iteration z sst))
              = bytes_received sst + int (length data))"
proof -
  obtain p where p: "accept_rtp data = Some p" and a: "audio_data p = drop 12 data"
    using assms by (rule accepted_payload)
  have main: "packets_received (snd (iteration x st)) = packets_received st + 1
      \<and> bytes_received (snd (iteration x st)) = bytes_received st + int (length data)"
    if "recv x = Received data addr"
      "drop 12 data = [] \<or> sink_write x = None \<or> sink_write x = Some ALSAAudioError"
    using that
    by (auto simp: iteration_def handle_datagram_def p a update_statistics_fields Let_def)
  have minimal: "packets_received (snd (minimal_iteration y mst)) = packets_received mst + 1
      \<and> bytes_received (snd (minimal_iteration y mst)) = bytes_received mst + int (length data)"
    if "recv y = Received data addr"
      "drop 12 data = [] \<or> aplay_process mst = None \<or> sink_write y = None
         \<or> sink_write y = Some BrokenPipeError \<or> sink_write y = Some TimeoutError
         \<or> sink_write y = Some OSError"
    using that
    by (auto simp: minimal_iteration_def minimal_handle_datagram_def p a
        update_statistics_fields restart_aplay_fields Let_def)
  have simple: "packets_received (snd (simple_iteration z sst)) = packets_received sst + 1
      \<and> bytes_received (snd (simple_iteration z sst)) = bytes_received sst + int (length data)"
    if "recv z = Received data addr"
      "drop 12 data = [] \<or> aplay_process sst = None
         \<or> sink_write z \<noteq> Some BrokenPipeError \<or> popen_ok z"
    using that
    by (auto simp: simple_iteration_def simple_handle_datagram_def p a start_aplay_def
        stop_aplay_def note_packet_fields popen_fields Let_def)
  from main minimal simple show ?thesis by blast
qed


theorem receive_counters_on_accepted_witness:
  "12 \<le> length [0x80, 0x60, 0, 7, 0, 0, 0, 0, 0, 0, 0, 0, 1, 2 :: byte]
   \<and> uint ([0x80, 0x60, 0, 7, 0, 0, 0, 0, 0, 0, 0, 0, 1, 2 :: byte] ! 0) div 64 = 2
   \<and> packets_received (snd (iteration
        \<lparr>recv = Received [0x80, 0x60, 0, 7, 0, 0, 0, 0, 0, 0, 0, 0, 1, 2] ''10.0.0.9'',
          clock = 1000, sink_write = Some ALSAAudioError, popen_ok = True\<rparr>
        (snd (start True 990 AudioReceiver_init)))) = 1
   \<and> bytes_received (snd (iteration
        \<lparr>recv = Received [0x80, 0x60, 0, 7, 0, 0, 0, 0, 0, 0, 0, 0, 1, 2] ''10.0.0.9'',
          clock = 1000, sink_write = Some ALSAAudioError, popen_ok = True\<rparr>
        (snd (start True 990 AudioReceiver_init)))) = 14
   \<and> packets_received (snd (minimal_iteration
        \<lparr>recv = Received [0x80, 0x60, 0, 7, 0, 0, 0, 0, 0, 0, 0, 0, 1, 2] ''10.0.0.9'',
          clock = 1000 :: int, sink_write = Some BrokenPipeError, popen_ok = False\<rparr>
        (snd (minimal_start True True MinimalAudioReceiver_init)))) = 1
   \<and> packets_received (snd (simple_iteration
        \<lparr>recv = Received [0x80, 0x60, 0, 7, 0, 0, 0, 0, 0, 0, 0, 0, 1, 2] ''10.0.0.9'',
          clock = 1000, sink_write = Some BrokenPipeError, popen_ok = True\<rparr>
        ((popen (SimpleAudioReceiver_init 0))\<lparr>running := True\<rparr>))) = 1"
  using receive_counters_on_accepted
    [where data = "[0x80, 0x60, 0, 7, 0, 0, 0, 0, 0, 0, 0, 0, 1, 2]"
       and addr = "''10.0.0.9''"
       and x = "\<lparr>recv = Received [0x80, 0x60, 0, 7, 0, 0, 0, 0, 0, 0, 0, 0, 1, 2] ''10.0.0.9'',
          clock = 1000, sink_write = Some ALSAAudioError, popen_ok = True\<rparr>"
       and st = "snd (start True 990 AudioReceiver_init)"
       and y = "\<lparr>recv = Received [0x80, 0x60, 0, 7, 0, 0, 0, 0, 0, 0, 0, 0, 1, 2] ''10.0.0.9'',
          clock = 1000 :: int, sink_write = Some BrokenPipeError, popen_ok = False\<rparr>"
       and mst = "snd (minimal_start True True MinimalAudioReceiver_init)"
       and z = "\<lparr>recv = Received [0x80, 0x60, 0, 7, 0, 0, 0, 0, 0, 0, 0, 0, 1, 2] ''10.0.0.9'',
          clock = 1000, sink_write = Some BrokenPipeError, popen_ok = True\<rparr>"
       and sst = "(popen (SimpleAudioReceiver_init 0))\<lparr>running := True\<rparr>"]
  by (simp add: start_def AudioReceiver_init_def minimal_start_def popen_def
      MinimalAudioReceiver_init_def SimpleAudioReceiver_init_def)

text \<open>
  The case the statement above leaves out: in the simple variant a valid datagram
  whose write raises \<^verbatim>\<open>BrokenPipeError\<close> and whose restart fails leaves the loop
  before the statistics are updated, so both counters keep the value 0.
\<close>

theorem simple_restart_failure_skips_counters:
  "12 \<le> length [0x80, 0x60, 0, 7, 0, 0, 0, 0, 0, 0, 0, 0, 1, 2 :: byte]
   \<and> uint ([0x80, 0x60, 0, 7, 0, 0, 0, 0, 0, 0, 0, 0, 1, 2 :: byte] ! 0) div 64 = 2
   \<and> accept_rtp [0x80, 0x60, 0, 7, 0, 0, 0, 0, 0, 0, 0, 0, 1, 2] \<noteq> None
   \<and> packets_received ((popen (SimpleAudioReceiver_init 0))\<lparr>running := True\<rparr>) = 0
   \<and> packets_received (snd (simple_iteration
        \<lparr>recv = Received [0x80, 0x60, 0, 7, 0, 0, 0, 0, 0, 0, 0, 0, 1, 2] ''10.0.0.9'',
          clock = 1000, sink_write = Some BrokenPipeError, popen_ok = False\<rparr>
        ((popen (SimpleAudioReceiver_init 0))\<lparr>running := True\<rparr>))) = 0
   \<and> bytes_received (snd (simple_iteration
        \<lparr>recv = Received [0x80, 0x60, 0, 7, 0, 0, 0, 0, 0, 0, 0, 0, 1, 2] ''10.0.0.9'',
          clock = 1000, sink_write = Some BrokenPipeError, popen_ok = False\<rparr>
        ((popen (SimpleAudioReceiver_init 0))\<lparr>running := True\<rparr>))) = 0"
  by (simp add: stop_aplay_def start_aplay_def popen_def
      SimpleAudioReceiver_init_def simple_iteration_def simple_handle_datagram_def
      accept_rtp_def parse_rtp_def unpack_BBHII_def be_int_def)


end
